theory Spec2Isabelle
  imports Complex_Main "HOL-Library.Sublist"
begin

section \<open>Python strings\<close>

text \<open>
  A Python \<open>str\<close> is a sequence of Unicode code points and \<open>len\<close> counts code points,
  so a string is modelled as a list of code points (natural numbers). \<open>py\<close> turns an
  ASCII literal of the source into that representation.
\<close>

type_synonym pystr = "nat list"

definition py :: "string \<Rightarrow> pystr" where
  "py s = map of_char s"

text \<open>
  \<open>str.isspace\<close> on one code point: the characters Python's \<open>str.strip()\<close> removes
  (TAB..CR, FS..US, SPACE, NEL, NBSP, OGHAM SPACE, EN QUAD..HAIR SPACE, LINE and
  PARAGRAPH SEPARATOR, NNBSP, MMSP, IDEOGRAPHIC SPACE).
\<close>

definition isspace :: "nat \<Rightarrow> bool" where
  "isspace c \<longleftrightarrow>
     (9 \<le> c \<and> c \<le> 13) \<or> (28 \<le> c \<and> c \<le> 32) \<or> c = 133 \<or> c = 160 \<or> c = 5760 \<or>
     (8192 \<le> c \<and> c \<le> 8202) \<or> c = 8232 \<or> c = 8233 \<or> c = 8239 \<or> c = 8287 \<or>
     c = 12288"

text \<open>\<open>s.strip()\<close>: leading and trailing whitespace removed.\<close>

definition strip :: "pystr \<Rightarrow> pystr" where
  "strip s = rev (dropWhile isspace (rev (dropWhile isspace s)))"

text \<open>The truth value of \<open>t and t.strip()\<close>.\<close>

definition nonblank :: "pystr \<Rightarrow> bool" where
  "nonblank t \<longleftrightarrow> t \<noteq> [] \<and> strip t \<noteq> []"

text \<open>\<open>sep.join(parts)\<close>.\<close>

fun join :: "pystr \<Rightarrow> pystr list \<Rightarrow> pystr" where
  "join sep [] = []"
| "join sep [x] = x"
| "join sep (x # y # ys) = x @ sep @ join sep (y # ys)"

text \<open>\<open>str(n)\<close> for a non-negative integer: its decimal digits.\<close>

fun str_nat :: "nat \<Rightarrow> pystr" where
  "str_nat n = (if n < 10 then [48 + n] else str_nat (n div 10) @ [48 + n mod 10])"

declare str_nat.simps [simp del]

section \<open>utils/file\_loader.py\<close>

text \<open>\<open>_MIN_TEXT_LENGTH = 50\<close>\<close>

definition MIN_TEXT_LENGTH :: nat where
  "MIN_TEXT_LENGTH = 50"

text \<open>
  The exception hierarchy of the loader. \<open>EmptyDocumentError\<close> carries which of the five
  \<open>raise EmptyDocumentError(...)\<close> statements produced it. \<open>OtherException\<close> stands for any
  exception that is not a \<open>FileLoadError\<close>; the private loaders can let one escape and
  \<open>load\<close> turns it into \<open>CorruptedFileError\<close>.
\<close>

datatype empty_reason =
  PdfZeroPages | PdfNoReadableText | DocxNoReadableText | TxtIsEmpty | TxtNoReadableText

datatype file_load_error =
    FileLoadError
  | UnsupportedFileTypeError
  | CorruptedFileError
  | PasswordProtectedError
  | EmptyDocumentError empty_reason
  | OCRUnavailableError
  | OtherException

subsection \<open>What the parsing libraries report for a file\<close>

text \<open>
  PyPDF2, pdfplumber, pdf2image, pytesseract, python-docx and the codecs behind
  \<open>Path.read_text\<close> are not part of the repository. A file is therefore given by what
  each of these calls returns or raises on it.
\<close>

datatype 'a pypdf_call = PdfReadError | OtherError | Ok 'a

record pdf_reader =
  is_encrypted :: bool
  decrypt_empty :: "nat option"     \<comment> \<open>\<open>reader.decrypt("")\<close>; \<open>None\<close>: it raises\<close>
  num_pages :: "nat pypdf_call"     \<comment> \<open>\<open>len(reader.pages)\<close>\<close>

text \<open>\<open>page.extract_text()\<close> or \<open>image_to_string(image)\<close>: raises, or returns a string or \<open>None\<close>.\<close>

datatype page_text = ExtractFails | Extracted "pystr option"

text \<open>A pdfplumber table is a list of rows, a row a list of cells, a cell a string or \<open>None\<close>.\<close>

type_synonym pdf_table = "pystr option list list"

record plumber_page =
  pl_text :: page_text
  pl_tables :: "pdf_table list option option"
    \<comment> \<open>\<open>page.extract_tables()\<close>; outer \<open>None\<close>: it raises; inner \<open>None\<close>: it returns \<open>None\<close>\<close>

record pdf_file =
  pypdf2_imports :: bool
    \<comment> \<open>whether the two \<open>from PyPDF2 ... import\<close> statements of the preflight succeed\<close>
  preflight_reader :: "pdf_reader pypdf_call"   \<comment> \<open>\<open>PdfReader(str(path))\<close> in the preflight\<close>
  pypdf2_pages :: "page_text list option"       \<comment> \<open>\<open>None\<close>: opening or iterating raises\<close>
  plumber_pages :: "plumber_page list option"   \<comment> \<open>\<open>None\<close>: import or \<open>pdfplumber.open\<close> fails\<close>
  ocr_pages :: "page_text list option"
    \<comment> \<open>\<open>None\<close>: OCR dependencies missing or \<open>convert_from_path\<close> fails\<close>

record docx_content =
  paragraphs :: "pystr list"            \<comment> \<open>\<open>para.text\<close> of each paragraph\<close>
  tables :: "pystr list list list"      \<comment> \<open>\<open>cell.text\<close> by table, row, cell\<close>

datatype docx_open =
    DocxImportError
  | DocxOpenRaises pystr                \<comment> \<open>\<open>str(e).lower()\<close> of the exception\<close>
  | DocxOpened "docx_content option"    \<comment> \<open>\<open>None\<close>: reading the content raises\<close>

datatype encoding = UTF8 | UTF8_SIG | LATIN1 | CP1252

datatype read_text_result = UnicodeDecodeError | ReadError | Decoded pystr

record txt_file =
  read_text :: "encoding \<Rightarrow> read_text_result"   \<comment> \<open>\<open>path.read_text(encoding=...)\<close>\<close>
  read_bytes :: "nat list option"                \<comment> \<open>\<open>path.read_bytes()\<close>; \<open>None\<close>: it raises\<close>

record file_content =
  as_pdf :: pdf_file
  as_docx :: docx_open
  as_txt :: txt_file

record disk_file =
  path_exists :: bool          \<comment> \<open>\<open>path.exists()\<close>\<close>
  path_is_file :: bool         \<comment> \<open>\<open>path.is_file()\<close>\<close>
  path_suffix :: pystr         \<comment> \<open>\<open>Path(file_path).suffix.lower()\<close>\<close>
  content :: file_content

subsection \<open>FileLoader\<close>

definition SUPPORTED_EXTENSIONS :: "pystr set" where
  "SUPPORTED_EXTENSIONS = {py ''.pdf'', py ''.docx'', py ''.txt''}"

definition validate_extension :: "pystr \<Rightarrow> file_load_error + pystr" where
  "validate_extension ext =
     (if ext \<notin> SUPPORTED_EXTENSIONS then Inl UnsupportedFileTypeError else Inr ext)"

text \<open>
  \<open>_pdf_preflight_check\<close>: \<open>None\<close> when it returns, \<open>Some e\<close> when it raises \<open>e\<close>. When
  an import at its start fails, the name \<open>PdfReadError\<close> is unbound in the function, so
  testing the handler \<open>except PdfReadError\<close> raises \<open>UnboundLocalError\<close>, which leaves the
  function (and becomes \<open>CorruptedFileError\<close> in \<open>load\<close>).
\<close>

definition pdf_preflight_check :: "pdf_file \<Rightarrow> file_load_error option" where
  "pdf_preflight_check f =
     (if \<not> pypdf2_imports f then Some OtherException
      else (case preflight_reader f of
        PdfReadError \<Rightarrow> Some CorruptedFileError
      | OtherError \<Rightarrow> None
      | Ok reader \<Rightarrow>
          if is_encrypted reader \<and>
             (case decrypt_empty reader of None \<Rightarrow> True | Some decrypted \<Rightarrow> decrypted = 0)
          then Some PasswordProtectedError
          else (case num_pages reader of
                  PdfReadError \<Rightarrow> Some CorruptedFileError
                | OtherError \<Rightarrow> None
                | Ok n \<Rightarrow> if n = 0 then Some (EmptyDocumentError PdfZeroPages) else None)))"

text \<open>
  The per-page loop shared by stage 1 and stage 3: a page whose extraction raises is
  skipped, a page with text that is non-empty after stripping contributes its stripped text.
\<close>

fun pages_text :: "page_text list \<Rightarrow> pystr list" where
  "pages_text [] = []"
| "pages_text (ExtractFails # ps) = pages_text ps"
| "pages_text (Extracted None # ps) = pages_text ps"
| "pages_text (Extracted (Some t) # ps) =
     (if nonblank t then strip t # pages_text ps else pages_text ps)"

text \<open>
  Stage 1. Its handler \<open>except PasswordProtectedError: raise\<close> is never entered: the
  calls in its \<open>try\<close> block are library calls, which do not raise the loader's own
  exception class, and the per-page handler catches every exception of a page. So the
  stage always returns a string.
\<close>

definition pdf_stage_pypdf2 :: "pdf_file \<Rightarrow> pystr" where
  "pdf_stage_pypdf2 f =
     (case pypdf2_pages f of
        None \<Rightarrow> []
      | Some ps \<Rightarrow> if pages_text ps \<noteq> [] then join [10, 10] (pages_text ps) else [])"

text \<open>
  One pdfplumber table as text: rows joined by newline (code point 10), cells by TAB
  (code point 9), empty rows left out; \<open>str(cell or "")\<close> is the cell, or the empty string
  for \<open>None\<close>.
\<close>

definition table_text :: "pdf_table \<Rightarrow> pystr" where
  "table_text table =
     join [10]
       (map (\<lambda>row. join [9] (map (\<lambda>cell. case cell of None \<Rightarrow> [] | Some s \<Rightarrow> s) row))
            (filter (\<lambda>row. row \<noteq> []) table))"

text \<open>
  What one pdfplumber page appends to \<open>pages_text\<close>. When \<open>extract_tables\<close> raises, the
  page text appended before stays.
\<close>

definition plumber_page_text :: "plumber_page \<Rightarrow> pystr list" where
  "plumber_page_text p =
     (case pl_text p of
        ExtractFails \<Rightarrow> []
      | Extracted text \<Rightarrow>
          (case text of None \<Rightarrow> [] | Some t \<Rightarrow> if nonblank t then [strip t] else []) @
          (case pl_tables p of
             None \<Rightarrow> []
           | Some None \<Rightarrow> []
           | Some (Some tabs) \<Rightarrow>
               concat (map (\<lambda>table. if strip (table_text table) \<noteq> []
                                    then [strip (table_text table)] else []) tabs)))"

definition pdf_stage_pdfplumber :: "pdf_file \<Rightarrow> pystr" where
  "pdf_stage_pdfplumber f =
     (case plumber_pages f of
        None \<Rightarrow> []
      | Some ps \<Rightarrow>
          if concat (map plumber_page_text ps) \<noteq> []
          then join [10, 10] (concat (map plumber_page_text ps)) else [])"

definition pdf_stage_ocr :: "pdf_file \<Rightarrow> pystr" where
  "pdf_stage_ocr f =
     (case ocr_pages f of
        None \<Rightarrow> []
      | Some ps \<Rightarrow> if pages_text ps \<noteq> [] then join [10, 10] (pages_text ps) else [])"

text \<open>The test \<open>text and len(text.strip()) >= _MIN_TEXT_LENGTH\<close> of \<open>_load_pdf\<close>.\<close>

definition clears_threshold :: "pystr \<Rightarrow> bool" where
  "clears_threshold text \<longleftrightarrow> text \<noteq> [] \<and> length (strip text) \<ge> MIN_TEXT_LENGTH"

text \<open>
  \<open>_load_pdf\<close> returns the text or the exception, and with it the list of the stages it
  ran, in the order they ran.
\<close>

datatype pdf_stage = Preflight | StagePyPDF2 | StagePdfplumber | StageOCR

definition load_pdf :: "pdf_file \<Rightarrow> (file_load_error + pystr) \<times> pdf_stage list" where
  "load_pdf f =
     (case pdf_preflight_check f of
        Some e \<Rightarrow> (Inl e, [Preflight])
      | None \<Rightarrow>
          if clears_threshold (pdf_stage_pypdf2 f)
          then (Inr (strip (pdf_stage_pypdf2 f)), [Preflight, StagePyPDF2])
          else if clears_threshold (pdf_stage_pdfplumber f)
          then (Inr (strip (pdf_stage_pdfplumber f)), [Preflight, StagePyPDF2, StagePdfplumber])
          else if clears_threshold (pdf_stage_ocr f)
          then (Inr (strip (pdf_stage_ocr f)),
                [Preflight, StagePyPDF2, StagePdfplumber, StageOCR])
          else (Inl (EmptyDocumentError PdfNoReadableText),
                [Preflight, StagePyPDF2, StagePdfplumber, StageOCR]))"

definition docx_text_parts :: "docx_content \<Rightarrow> pystr list" where
  "docx_text_parts doc =
     concat (map (\<lambda>para. if strip para \<noteq> [] then [strip para] else []) (paragraphs doc)) @
     concat (map (\<lambda>table.
       concat (map (\<lambda>row.
         if strip (join [9] (map strip (filter (\<lambda>cell. strip cell \<noteq> []) row))) \<noteq> []
         then [strip (join [9] (map strip (filter (\<lambda>cell. strip cell \<noteq> []) row)))]
         else []) table)) (tables doc))"

definition load_docx :: "docx_open \<Rightarrow> file_load_error + pystr" where
  "load_docx d =
     (case d of
        DocxImportError \<Rightarrow> Inl FileLoadError
      | DocxOpenRaises error_str \<Rightarrow>
          if sublist (py ''password'') error_str \<or> sublist (py ''encrypt'') error_str
          then Inl PasswordProtectedError
          else Inl CorruptedFileError
      | DocxOpened None \<Rightarrow> Inl CorruptedFileError
      | DocxOpened (Some doc) \<Rightarrow>
          if strip (join [10, 10] (docx_text_parts doc)) = []
          then Inl (EmptyDocumentError DocxNoReadableText)
          else Inr (join [10, 10] (docx_text_parts doc)))"

definition encodings :: "encoding list" where
  "encodings = [UTF8, UTF8_SIG, LATIN1, CP1252]"

text \<open>
  The \<open>for encoding in encodings\<close> loop of \<open>_load_txt\<close>: \<open>Some r\<close> when the loop leaves
  the function with \<open>r\<close>, \<open>None\<close> when it runs to its end.
\<close>

fun load_txt_loop :: "(encoding \<Rightarrow> read_text_result) \<Rightarrow> encoding list \<Rightarrow>
    (file_load_error + pystr) option" where
  "load_txt_loop rd [] = None"
| "load_txt_loop rd (enc # encs) =
     (case rd enc of
        Decoded text \<Rightarrow> if strip text \<noteq> [] then Some (Inr text) else load_txt_loop rd encs
      | UnicodeDecodeError \<Rightarrow> load_txt_loop rd encs
      | ReadError \<Rightarrow> Some (Inl CorruptedFileError))"

definition load_txt :: "txt_file \<Rightarrow> file_load_error + pystr" where
  "load_txt f =
     (case load_txt_loop (read_text f) encodings of
        Some r \<Rightarrow> r
      | None \<Rightarrow>
          (case read_bytes f of
             None \<Rightarrow> Inl OtherException
           | Some raw \<Rightarrow>
               if length raw = 0 then Inl (EmptyDocumentError TxtIsEmpty)
               else Inl (EmptyDocumentError TxtNoReadableText)))"

text \<open>
  \<open>FileLoader.load\<close>. A \<open>FileLoadError\<close> of the chosen loader is re-raised, any other
  exception becomes \<open>CorruptedFileError\<close>.
\<close>

definition load :: "disk_file \<Rightarrow> file_load_error + pystr" where
  "load file =
     (if \<not> path_exists file then Inl FileLoadError
      else if \<not> path_is_file file then Inl FileLoadError
      else (case validate_extension (path_suffix file) of
              Inl e \<Rightarrow> Inl e
            | Inr ext \<Rightarrow>
                (case (if ext = py ''.pdf'' then fst (load_pdf (as_pdf (content file)))
                       else if ext = py ''.docx'' then load_docx (as_docx (content file))
                       else if ext = py ''.txt'' then load_txt (as_txt (content file))
                       else Inl UnsupportedFileTypeError) of
                   Inl e \<Rightarrow> if e = OtherException then Inl CorruptedFileError else Inl e
                 | Inr text \<Rightarrow> Inr text)))"

section \<open>Records of the vector index and the external services\<close>

text \<open>
  The metadata dictionary of a vector record, with the five keys \<open>_prepare_vectors\<close>
  writes; \<open>None\<close> is a missing key. An embedding and a relevance score are lists of
  floats and a float, which the code only passes on: they are modelled as reals.
\<close>

record metadata =
  md_user_id :: "pystr option"
  md_document_id :: "pystr option"
  md_file_name :: "pystr option"
  md_chunk_index :: "nat option"
  md_text :: "pystr option"

definition empty_metadata :: metadata where
  "empty_metadata = \<lparr>md_user_id = None, md_document_id = None, md_file_name = None,
     md_chunk_index = None, md_text = None\<rparr>"

record vector =
  vec_id :: pystr
  vec_values :: "real list"
  vec_metadata :: metadata

text \<open>A match as the index returns it (\<open>match.metadata\<close> may be \<open>None\<close>) and as \<open>query\<close> returns it.\<close>

record raw_match =
  rm_id :: pystr
  rm_score :: real
  rm_metadata :: "metadata option"

record match =
  m_id :: pystr
  m_score :: real
  m_metadata :: metadata

type_synonym filter_dict = "(pystr \<times> pystr) list"

text \<open>
  The calls a run makes to the embedding service, the vector store, the generation
  chain and the local storage, in the order they are made.
\<close>

datatype event =
    SaveFile pystr                               \<comment> \<open>\<open>_save_file\<close> for this document id\<close>
  | DeleteFile pystr                             \<comment> \<open>\<open>_delete_file(document_id)\<close> is called\<close>
  | RmTree pystr                                 \<comment> \<open>\<open>shutil.rmtree(doc_dir, ignore_errors=True)\<close>\<close>
  | EmbedText pystr                              \<comment> \<open>\<open>EmbeddingService.embed_text\<close> is called\<close>
  | EmbedTexts "pystr list"                      \<comment> \<open>\<open>EmbeddingService.embed_texts\<close> is called\<close>
  | ModelEmbedQuery pystr                        \<comment> \<open>\<open>self._model.aembed_query\<close>\<close>
  | ModelEmbedDocuments "pystr list"             \<comment> \<open>\<open>self._model.aembed_documents\<close>\<close>
  | UpsertVectors "vector list"                  \<comment> \<open>\<open>PineconeService.upsert_vectors\<close> is called\<close>
  | IndexUpsert "vector list"                    \<comment> \<open>\<open>self._index.upsert\<close> of one batch\<close>
  | IndexQuery "real list" int "filter_dict option"  \<comment> \<open>\<open>self._index.query\<close>\<close>
  | IndexDelete filter_dict                      \<comment> \<open>\<open>self._index.delete\<close>\<close>
  | ChainInvoke pystr pystr                      \<comment> \<open>\<open>self._chain.ainvoke\<close> with context and question\<close>

text \<open>
  \<open>_save_file\<close> creates the directory of the document and then writes the upload into
  it; either step can raise.
\<close>

datatype save_outcome = MkdirRaises | WriteRaises | Saved

text \<open>
  The behaviour of everything outside the repository that a run depends on: the
  embedding model, the index, the generation chain, the LangChain splitter, the
  configured \<open>TOP_K\<close>, \<open>uuid.uuid4()\<close>, whether writing the upload succeeds, the file
  system outside the document directories, and Python's float formatting
  \<open>{score:.4f}\<close> and \<open>round(score, 4)\<close>.
\<close>

record services =
  aembed_query :: "pystr \<Rightarrow> real list option"              \<comment> \<open>\<open>None\<close>: the call raises\<close>
  aembed_documents :: "pystr list \<Rightarrow> real list list option"
  index_upsert :: "vector list \<Rightarrow> bool"                      \<comment> \<open>\<open>False\<close>: the call raises\<close>
  index_query :: "real list \<Rightarrow> int \<Rightarrow> filter_dict option \<Rightarrow> raw_match list option option"
    \<comment> \<open>outer \<open>None\<close>: the call raises; inner \<open>None\<close>: no \<open>matches\<close> in the response\<close>
  index_delete :: "filter_dict \<Rightarrow> bool"
  chain_ainvoke :: "pystr \<Rightarrow> pystr \<Rightarrow> pystr option"
  chain_value_error :: "pystr \<Rightarrow> pystr \<Rightarrow> bool"
    \<comment> \<open>when \<open>ainvoke\<close> raises: whether the exception is a \<open>ValueError\<close>\<close>
  split_text :: "pystr \<Rightarrow> pystr list option"
  split_text_value_error :: "pystr \<Rightarrow> bool"
    \<comment> \<open>when \<open>split_text\<close> raises: whether the exception is a \<open>ValueError\<close>\<close>
  TOP_K :: int
  uuid4 :: pystr
    \<comment> \<open>\<open>str(uuid.uuid4())\<close>: hexadecimal digits and hyphens, the name of one directory\<close>
  save_outcome :: save_outcome
  other_path_exists :: "pystr \<Rightarrow> bool"
    \<comment> \<open>\<open>(upload_dir / document_id).exists()\<close> for an id that is not the name of a child\<close>
  rmtree_leaves :: "pystr \<Rightarrow> pystr set \<Rightarrow> pystr set"
    \<comment> \<open>the local storage when \<open>rmtree(upload_dir / document_id, ignore_errors=True)\<close> has run\<close>
  format_4f :: "real \<Rightarrow> pystr"
  round_4 :: "real \<Rightarrow> real"

datatype service_error = ValueError | RuntimeError

section \<open>services/embedding\_service.py\<close>

definition embed_text :: "services \<Rightarrow> pystr \<Rightarrow> (service_error + real list) \<times> event list" where
  "embed_text sv text =
     (if \<not> nonblank text then (Inl ValueError, [EmbedText text])
      else (case aembed_query sv text of
              None \<Rightarrow> (Inl RuntimeError, [EmbedText text, ModelEmbedQuery text])
            | Some embedding \<Rightarrow> (Inr embedding, [EmbedText text, ModelEmbedQuery text])))"

definition embed_texts ::
    "services \<Rightarrow> pystr list \<Rightarrow> (service_error + real list list) \<times> event list" where
  "embed_texts sv texts =
     (if texts = [] then (Inl ValueError, [EmbedTexts texts])
      else if filter nonblank texts = [] then (Inl ValueError, [EmbedTexts texts])
      else (case aembed_documents sv (filter nonblank texts) of
              None \<Rightarrow>
                (Inl RuntimeError, [EmbedTexts texts, ModelEmbedDocuments (filter nonblank texts)])
            | Some embeddings \<Rightarrow>
                (Inr embeddings, [EmbedTexts texts, ModelEmbedDocuments (filter nonblank texts)])))"

section \<open>services/pinecone\_service.py\<close>

text \<open>
  The loop \<open>for i in range(0, len(vectors), batch_size)\<close> of \<open>upsert_vectors\<close> from index
  \<open>i\<close> on, with \<open>total_upserted\<close> so far: \<open>None\<close> when a batch call raises.
\<close>

function upsert_from :: "services \<Rightarrow> vector list \<Rightarrow> nat \<Rightarrow> nat \<Rightarrow> nat option \<times> event list" where
  "upsert_from sv vectors i total_upserted =
     (if i < length vectors then
        (if index_upsert sv (take 100 (drop i vectors))
         then (case upsert_from sv vectors (i + 100)
                      (total_upserted + length (take 100 (drop i vectors))) of
                 (r, evs) \<Rightarrow> (r, IndexUpsert (take 100 (drop i vectors)) # evs))
         else (None, [IndexUpsert (take 100 (drop i vectors))]))
      else (Some total_upserted, []))"
  by pat_completeness auto
termination
  by (relation "measure (\<lambda>(sv, vectors, i, total_upserted). length vectors - i)") auto

declare upsert_from.simps [simp del]

definition upsert_vectors :: "services \<Rightarrow> vector list \<Rightarrow> (service_error + nat) \<times> event list" where
  "upsert_vectors sv vectors =
     (if vectors = [] then (Inr 0, [UpsertVectors vectors])
      else (case upsert_from sv vectors 0 0 of
              (None, evs) \<Rightarrow> (Inl RuntimeError, UpsertVectors vectors # evs)
            | (Some total_upserted, evs) \<Rightarrow> (Inr total_upserted, UpsertVectors vectors # evs)))"

definition query ::
    "services \<Rightarrow> real list \<Rightarrow> int option \<Rightarrow> filter_dict option \<Rightarrow>
     (service_error + match list) \<times> event list" where
  "query sv query_vector top_k flt =
     (let k = (case top_k of None \<Rightarrow> TOP_K sv | Some n \<Rightarrow> if n = 0 then TOP_K sv else n) in
      case index_query sv query_vector k flt of
        None \<Rightarrow> (Inl RuntimeError, [IndexQuery query_vector k flt])
      | Some results \<Rightarrow>
          (Inr (map (\<lambda>m. \<lparr>m_id = rm_id m, m_score = rm_score m,
                            m_metadata = (case rm_metadata m of None \<Rightarrow> empty_metadata
                                          | Some md \<Rightarrow> md)\<rparr>)
                    (case results of None \<Rightarrow> [] | Some raw_matches \<Rightarrow> raw_matches)),
           [IndexQuery query_vector k flt]))"


record doc_entry =
  de_document_id :: pystr
  de_file_name :: pystr

text \<open>
  The loop over \<open>raw_matches\<close> in \<open>list_documents_for_user\<close>. The dictionary \<open>seen\<close> keeps
  insertion order, so it is an association list to which new keys are appended.
\<close>

fun collect_seen :: "raw_match list \<Rightarrow> (pystr \<times> doc_entry) list \<Rightarrow> (pystr \<times> doc_entry) list" where
  "collect_seen [] seen = seen"
| "collect_seen (m # ms) seen =
     (let meta = (case rm_metadata m of None \<Rightarrow> empty_metadata | Some md \<Rightarrow> md) in
      case md_document_id meta of
        None \<Rightarrow> collect_seen ms seen
      | Some doc_id \<Rightarrow>
          if doc_id \<noteq> [] \<and> doc_id \<notin> fst ` set seen
          then collect_seen ms
                 (seen @ [(doc_id, \<lparr>de_document_id = doc_id,
                     de_file_name = (case md_file_name meta of None \<Rightarrow> py ''Unknown''
                                     | Some name \<Rightarrow> name)\<rparr>)])
          else collect_seen ms seen)"

definition list_documents_for_user ::
    "services \<Rightarrow> pystr \<Rightarrow> (service_error + doc_entry list) \<times> event list" where
  "list_documents_for_user sv user_id =
     (let zero_vector = replicate 768 0; flt = Some [(py ''user_id'', user_id)] in
      case index_query sv zero_vector 10000 flt of
        None \<Rightarrow> (Inl RuntimeError, [IndexQuery zero_vector 10000 flt])
      | Some results \<Rightarrow>
          (Inr (map snd (collect_seen (case results of None \<Rightarrow> [] | Some raw_matches \<Rightarrow> raw_matches) [])),
           [IndexQuery zero_vector 10000 flt]))"

section \<open>utils/text\_splitter.py\<close>

text \<open>
  \<open>TextSplitter.split\<close>: \<open>ValueError\<close> on empty or whitespace-only text, otherwise what
  LangChain's \<open>split_text\<close> returns, or the exception it raises: a \<open>ValueError\<close>
  (\<open>SplitValueError\<close> again, the caller cannot tell the two apart) or any other exception.
\<close>

datatype split_result = SplitValueError | SplitRaises | Chunks "pystr list"

definition TextSplitter_split :: "services \<Rightarrow> pystr \<Rightarrow> split_result" where
  "TextSplitter_split sv text =
     (if \<not> nonblank text then SplitValueError
      else (case split_text sv text of
              None \<Rightarrow> if split_text_value_error sv text then SplitValueError else SplitRaises
            | Some chunks \<Rightarrow> Chunks chunks))"

section \<open>services/document\_processor.py\<close>

datatype error_code =
    UNSUPPORTED_FILE_TYPE | SAVE_FAILED | PASSWORD_PROTECTED | CORRUPTED_FILE
  | EMPTY_DOCUMENT | EXTRACTION_FAILED | INSUFFICIENT_CONTENT | EMPTY_CHUNKS
  | EMBEDDING_FAILED | EMBEDDING_SERVICE_ERROR | PINECONE_SERVICE_ERROR | UNKNOWN_ERROR

text \<open>An upload: the file name, its lower-cased suffix and what the libraries read in it.\<close>

record upload =
  up_file_name :: pystr
  up_suffix :: pystr            \<comment> \<open>\<open>Path(file_name).suffix.lower()\<close>\<close>
  up_content :: file_content

record processing_result =
  pr_document_id :: pystr
  pr_file_name :: pystr
  pr_num_chunks :: nat
  pr_total_characters :: nat
  pr_status :: pystr


text \<open>
  The local storage is the set of the names \<open>d\<close> of one path component for which
  \<open>(upload_dir / d).exists()\<close> holds: the document directories directly under the upload
  directory. \<open>_save_file\<close> returns whether it succeeded.
\<close>

definition save_file :: "services \<Rightarrow> pystr set \<Rightarrow> pystr \<Rightarrow> bool \<times> pystr set \<times> event list" where
  "save_file sv dirs document_id =
     (case save_outcome sv of
        MkdirRaises \<Rightarrow> (False, dirs, [SaveFile document_id])
      | WriteRaises \<Rightarrow> (False, insert document_id dirs, [SaveFile document_id])
      | Saved \<Rightarrow> (True, insert document_id dirs, [SaveFile document_id]))"

text \<open>
  \<open>_delete_file\<close> as \<open>process_document\<close> calls it, on the id it drew with \<open>uuid4\<close> and
  whose directory \<open>_save_file\<close> has just made: the id is the name of a directory directly
  under the upload directory, \<open>doc_dir.exists()\<close> is membership in the set, and \<open>rmtree\<close>
  is taken to remove that directory (with \<open>ignore_errors=True\<close> it never raises).
\<close>

definition delete_file :: "pystr set \<Rightarrow> pystr \<Rightarrow> pystr set \<times> event list" where
  "delete_file dirs document_id =
     (if document_id \<in> dirs
      then (dirs - {document_id}, [DeleteFile document_id, RmTree document_id])
      else (dirs, [DeleteFile document_id]))"




definition prepare_vectors ::
    "pystr list \<Rightarrow> real list list \<Rightarrow> pystr \<Rightarrow> pystr \<Rightarrow> pystr \<Rightarrow> vector list" where
  "prepare_vectors chunks embeddings user_id document_id file_name =
     map (\<lambda>(idx, (chunk, embedding)).
            \<lparr>vec_id = document_id @ py ''_chunk_'' @ str_nat idx,
             vec_values = embedding,
             vec_metadata = \<lparr>md_user_id = Some user_id, md_document_id = Some document_id,
               md_file_name = Some file_name, md_chunk_index = Some idx,
               md_text = Some chunk\<rparr>\<rparr>)
         (enumerate 0 (zip chunks embeddings))"

text \<open>
  Steps 4 to 7 of \<open>process_document\<close>, from the extracted \<open>text\<close> on: the error code of
  the \<open>DocumentProcessingError\<close> raised (\<open>UNKNOWN_ERROR\<close> for any other exception) or the
  result, and the calls made.
\<close>

definition check_to_store ::
    "services \<Rightarrow> pystr \<Rightarrow> pystr \<Rightarrow> pystr \<Rightarrow> pystr \<Rightarrow>
     (error_code + processing_result) \<times> event list" where
  "check_to_store sv text file_name user_id document_id =
     (let clean_text = (if text \<noteq> [] then strip text else []) in
      if clean_text = [] then (Inl EMPTY_DOCUMENT, [])
      else if length clean_text < 50 then (Inl INSUFFICIENT_CONTENT, [])
      else (case TextSplitter_split sv clean_text of
              SplitValueError \<Rightarrow> (Inl INSUFFICIENT_CONTENT, [])
            | SplitRaises \<Rightarrow> (Inl UNKNOWN_ERROR, [])
            | Chunks split_chunks \<Rightarrow>
                if split_chunks = [] then (Inl EMPTY_CHUNKS, [])
                else (let chunks = filter nonblank split_chunks in
                  if chunks = [] then (Inl EMPTY_CHUNKS, [])
                  else (case embed_texts sv chunks of
                          (Inl ValueError, evs) \<Rightarrow> (Inl EMBEDDING_FAILED, evs)
                        | (Inl RuntimeError, evs) \<Rightarrow> (Inl EMBEDDING_SERVICE_ERROR, evs)
                        | (Inr embeddings, evs) \<Rightarrow>
                            (case upsert_vectors sv
                                    (prepare_vectors chunks embeddings user_id document_id
                                       file_name) of
                               (Inl RuntimeError, evs') \<Rightarrow>
                                 (Inl PINECONE_SERVICE_ERROR, evs @ evs')
                             | (Inl ValueError, evs') \<Rightarrow> (Inl UNKNOWN_ERROR, evs @ evs')
                             | (Inr num_upserted, evs') \<Rightarrow>
                                 (Inr \<lparr>pr_document_id = document_id,
                                       pr_file_name = file_name,
                                       pr_num_chunks = length chunks,
                                       pr_total_characters = length clean_text,
                                       pr_status = py ''success''\<rparr>, evs @ evs'))))))"

text \<open>The file \<open>FileLoader.load\<close> finds at the path \<open>_save_file\<close> returned.\<close>

definition saved_file :: "upload \<Rightarrow> disk_file" where
  "saved_file up = \<lparr>path_exists = True, path_is_file = True, path_suffix = up_suffix up,
     content = up_content up\<rparr>"

text \<open>Steps 3 to 7 of \<open>process_document\<close>, the body of its outer \<open>try\<close>.\<close>

definition extract_to_store ::
    "services \<Rightarrow> upload \<Rightarrow> pystr \<Rightarrow> pystr \<Rightarrow> (error_code + processing_result) \<times> event list" where
  "extract_to_store sv up user_id document_id =
     (case load (saved_file up) of
        Inl e \<Rightarrow>
          (Inl (case e of
                  PasswordProtectedError \<Rightarrow> PASSWORD_PROTECTED
                | CorruptedFileError \<Rightarrow> CORRUPTED_FILE
                | EmptyDocumentError r \<Rightarrow> EMPTY_DOCUMENT
                | OtherException \<Rightarrow> UNKNOWN_ERROR
                | FileLoadError \<Rightarrow> EXTRACTION_FAILED
                | UnsupportedFileTypeError \<Rightarrow> EXTRACTION_FAILED
                | OCRUnavailableError \<Rightarrow> EXTRACTION_FAILED), [])
      | Inr text \<Rightarrow> check_to_store sv text (up_file_name up) user_id document_id)"

text \<open>
  \<open>process_document\<close>: the error code or the result, the local storage afterwards, and
  the calls made.
\<close>

definition process_document ::
    "services \<Rightarrow> pystr set \<Rightarrow> upload \<Rightarrow> pystr \<Rightarrow>
     (error_code + processing_result) \<times> pystr set \<times> event list" where
  "process_document sv dirs up user_id =
     (let document_id = uuid4 sv in
      case validate_extension (up_suffix up) of
        Inl e \<Rightarrow> (Inl UNSUPPORTED_FILE_TYPE, dirs, [])
      | Inr ext \<Rightarrow>
          (case save_file sv dirs document_id of
             (False, dirs', evs) \<Rightarrow> (Inl SAVE_FAILED, dirs', evs)
           | (True, dirs', evs) \<Rightarrow>
               (case extract_to_store sv up user_id document_id of
                  (Inr result, evs') \<Rightarrow> (Inr result, dirs', evs @ evs')
                | (Inl code, evs') \<Rightarrow>
                    (case delete_file dirs' document_id of
                       (dirs'', evs'') \<Rightarrow> (Inl code, dirs'', evs @ evs' @ evs'')))))"


section \<open>services/rag\_service.py\<close>

text \<open>\<open>match["metadata"].get("chunk_index", "?")\<close>: the stored index, or the string \<open>"?"\<close>.\<close>

datatype chunk_ref = ChunkIndex nat | ChunkText pystr

record source =
  src_chunk_index :: chunk_ref
  src_text :: pystr
  src_relevance_score :: real
  src_file_name :: pystr

record rag_answer =
  ra_answer :: pystr
  ra_sources :: "source list"
  ra_num_sources :: nat
  ra_question :: pystr

definition context_part :: "services \<Rightarrow> nat \<times> match \<Rightarrow> pystr" where
  "context_part sv im =
     (case im of (i, m) \<Rightarrow>
        py ''[Source '' @ str_nat i @ py '' | Chunk '' @
        (case md_chunk_index (m_metadata m) of None \<Rightarrow> py ''?'' | Some n \<Rightarrow> str_nat n) @
        py '' | Relevance: '' @ format_4f sv (m_score m) @ py '']'' @ [10] @
        (case md_text (m_metadata m) of None \<Rightarrow> [] | Some t \<Rightarrow> t))"

definition source_of :: "services \<Rightarrow> match \<Rightarrow> source" where
  "source_of sv m =
     \<lparr>src_chunk_index = (case md_chunk_index (m_metadata m) of None \<Rightarrow> ChunkText (py ''?'')
                         | Some n \<Rightarrow> ChunkIndex n),
      src_text = (case md_text (m_metadata m) of None \<Rightarrow> [] | Some t \<Rightarrow> t),
      src_relevance_score = round_4 sv (m_score m),
      src_file_name = (case md_file_name (m_metadata m) of None \<Rightarrow> py ''Unknown''
                       | Some name \<Rightarrow> name)\<rparr>"

definition ask_question ::
    "services \<Rightarrow> pystr \<Rightarrow> pystr \<Rightarrow> pystr \<Rightarrow> (service_error + rag_answer) \<times> event list" where
  "ask_question sv question user_id document_id =
     (if \<not> nonblank question then (Inl ValueError, [])
      else (case embed_text sv question of
              (Inl e, evs) \<Rightarrow> (Inl e, evs)
            | (Inr query_vector, evs) \<Rightarrow>
                (case query sv query_vector (Some (TOP_K sv))
                        (Some [(py ''user_id'', user_id), (py ''document_id'', document_id)]) of
                   (Inl e, evs') \<Rightarrow> (Inl e, evs @ evs')
                 | (Inr matches, evs') \<Rightarrow>
                     if matches = []
                     then (Inr \<lparr>ra_answer = py ''Answer not found in the uploaded document.'',
                                ra_sources = [], ra_num_sources = 0, ra_question = question\<rparr>,
                           evs @ evs')
                     else (let sources = map (source_of sv) matches;
                               context = join [10, 10, 45, 45, 45, 10, 10]
                                           (map (context_part sv) (enumerate 1 matches)) in
                           case chain_ainvoke sv context question of
                             None \<Rightarrow>
                               (Inl (if chain_value_error sv context question
                                     then ValueError else RuntimeError),
                                evs @ evs' @ [ChainInvoke context question])
                           | Some answer \<Rightarrow>
                               (Inr \<lparr>ra_answer = strip answer, ra_sources = sources,
                                     ra_num_sources = length sources, ra_question = question\<rparr>,
                                evs @ evs' @ [ChainInvoke context question])))))"

section \<open>Auxiliary notions for the properties\<close>

text \<open>Calls to the embedding service, its model, the vector store or its index.\<close>

fun embedding_or_store_call :: "event \<Rightarrow> bool" where
  "embedding_or_store_call (SaveFile d) = False"
| "embedding_or_store_call (DeleteFile d) = False"
| "embedding_or_store_call (RmTree d) = False"
| "embedding_or_store_call (ChainInvoke c q) = False"
| "embedding_or_store_call ev = True"

text \<open>An encoding the loop of \<open>_load_txt\<close> passes over: decoding fails, or the text is blank.\<close>

fun passed_over :: "read_text_result \<Rightarrow> bool" where
  "passed_over UnicodeDecodeError = True"
| "passed_over (Decoded text) = (strip text = [])"
| "passed_over ReadError = False"

text \<open>The document id and the file name \<open>list_documents_for_user\<close> reads from a match.\<close>

definition raw_document_id :: "raw_match \<Rightarrow> pystr option" where
  "raw_document_id m = (case rm_metadata m of None \<Rightarrow> None | Some md \<Rightarrow> md_document_id md)"

definition raw_file_name :: "raw_match \<Rightarrow> pystr" where
  "raw_file_name m =
     (case rm_metadata m of
        None \<Rightarrow> py ''Unknown''
      | Some md \<Rightarrow> (case md_file_name md of None \<Rightarrow> py ''Unknown'' | Some name \<Rightarrow> name))"

text \<open>The number a string of decimal digits denotes.\<close>

definition decimal_value :: "pystr \<Rightarrow> nat" where
  "decimal_value s = foldl (\<lambda>acc c. 10 * acc + (c - 48)) 0 s"

text \<open>
  Modelled from the spec: the vector index is an external service (sections 3, 4.4 and 6),
  of which the repository only calls \<open>upsert\<close>. It keeps one record per id, and an upsert
  stores each record of the batch under its id, replacing the record stored there.
  \<open>store_after\<close> is the index after the batch calls of a trace, all of which returned.
\<close>

type_synonym index_store = "pystr \<rightharpoonup> vector"

definition store_upsert :: "index_store \<Rightarrow> vector list \<Rightarrow> index_store" where
  "store_upsert store vs = foldl (\<lambda>st v. st(vec_id v \<mapsto> v)) store vs"

fun store_after :: "index_store \<Rightarrow> event list \<Rightarrow> index_store" where
  "store_after store [] = store"
| "store_after store (IndexUpsert batch # evs) = store_after (store_upsert store batch) evs"
| "store_after store (ev # evs) = store_after store evs"

section \<open>Example inputs\<close>

text \<open>
  Services that all answer: one embedding per text, an index that stores everything
  and finds nothing, a splitter that returns the text as one chunk. A document id that
  is not one plain name resolves to an existing path whose removal leaves no document
  directory; the directory of a plain name is removed alone.
\<close>

definition example_services :: services where
  "example_services =
     \<lparr>aembed_query = (\<lambda>t. Some [1]),
      aembed_documents = (\<lambda>ts. Some (map (\<lambda>t. [real (length t)]) ts)),
      index_upsert = (\<lambda>vs. True),
      index_query = (\<lambda>v k flt. Some (Some [])),
      index_delete = (\<lambda>flt. True),
      chain_ainvoke = (\<lambda>c q. Some c),
      chain_value_error = (\<lambda>c q. False),
      split_text = (\<lambda>t. Some [t]),
      split_text_value_error = (\<lambda>t. False),
      TOP_K = 5,
      uuid4 = py ''d1'',
      save_outcome = Saved,
      other_path_exists = (\<lambda>d. True),
      rmtree_leaves = (\<lambda>d dirs. if 47 \<in> set d \<or> d = [] \<or> d = py ''.'' \<or> d = py ''..''
                                then {} else dirs - {d}),
      format_4f = (\<lambda>r. []),
      round_4 = (\<lambda>r. r)\<rparr>"

text \<open>
  A file that no PDF library can read, and the content of a plain text file that every
  encoding decodes to \<open>t\<close>.
\<close>

definition empty_pdf :: pdf_file where
  "empty_pdf = \<lparr>pypdf2_imports = True, preflight_reader = PdfReadError, pypdf2_pages = None, plumber_pages = None,
     ocr_pages = None\<rparr>"

definition txt_content :: "pystr \<Rightarrow> file_content" where
  "txt_content t = \<lparr>as_pdf = empty_pdf, as_docx = DocxOpenRaises [],
     as_txt = \<lparr>read_text = (\<lambda>enc. Decoded t), read_bytes = Some t\<rparr>\<rparr>"

text \<open>A text file whose content is \<open>Short\<close>, the input of \<open>test_txt_insufficient\<close>.\<close>

definition short_txt :: disk_file where
  "short_txt = \<lparr>path_exists = True, path_is_file = True, path_suffix = py ''.txt'',
     content = txt_content (py ''Short'')\<rparr>"

text \<open>
  A DOCX file with the paragraph \<open>Short\<close> and one table row with the cells \<open>a\<close>, blank
  and \<open>b\<close>.
\<close>

definition short_docx :: disk_file where
  "short_docx = \<lparr>path_exists = True, path_is_file = True, path_suffix = py ''.docx'',
     content = \<lparr>as_pdf = empty_pdf,
       as_docx = DocxOpened (Some \<lparr>paragraphs = [py ''Short ''],
                                     tables = [[[py ''a'', py '' '', py ''b'']]]\<rparr>),
       as_txt = \<lparr>read_text = (\<lambda>enc. UnicodeDecodeError),
                 read_bytes = Some [80, 75, 3, 4]\<rparr>\<rparr>\<rparr>"


text \<open>
  Five matches for a listing: two chunks of \<open>d1\<close> with different file names, a match
  without metadata, a chunk of \<open>d2\<close> without file name, and a match with an empty id.
\<close>

definition example_matches :: "raw_match list" where
  "example_matches =
     [\<lparr>rm_id = py ''d1_chunk_0'', rm_score = 0,
       rm_metadata = Some (empty_metadata\<lparr>md_document_id := Some (py ''d1''),
                                          md_file_name := Some (py ''a.txt'')\<rparr>)\<rparr>,
      \<lparr>rm_id = py ''d1_chunk_1'', rm_score = 0,
       rm_metadata = Some (empty_metadata\<lparr>md_document_id := Some (py ''d1''),
                                          md_file_name := Some (py ''b.txt'')\<rparr>)\<rparr>,
      \<lparr>rm_id = py ''x'', rm_score = 0, rm_metadata = None\<rparr>,
      \<lparr>rm_id = py ''d2_chunk_0'', rm_score = 0,
       rm_metadata = Some (empty_metadata\<lparr>md_document_id := Some (py ''d2'')\<rparr>)\<rparr>,
      \<lparr>rm_id = py ''y'', rm_score = 0,
       rm_metadata = Some (empty_metadata\<lparr>md_document_id := Some [],
                                          md_file_name := Some (py ''c.txt'')\<rparr>)\<rparr>]"

definition listing_services :: services where
  "listing_services = example_services\<lparr>index_query := (\<lambda>v k flt. Some (Some example_matches))\<rparr>"

text \<open>A text of 62 characters, the content of the file of \<open>test_txt_valid\<close>.\<close>

definition long_text :: pystr where
  "long_text = py ''This is a valid text file with sufficient content for testing.''"

text \<open>
  A one-page PDF that passes the preflight, given by the text of its page as PyPDF2,
  pdfplumber and OCR extract it.
\<close>

definition example_pdf :: "pystr \<Rightarrow> pystr \<Rightarrow> pystr \<Rightarrow> pdf_file" where
  "example_pdf native layout ocr =
     \<lparr>pypdf2_imports = True,
      preflight_reader = Ok \<lparr>is_encrypted = False, decrypt_empty = None, num_pages = Ok 1\<rparr>,
      pypdf2_pages = Some [Extracted (Some native)],
      plumber_pages = Some [\<lparr>pl_text = Extracted (Some layout), pl_tables = Some None\<rparr>],
      ocr_pages = Some [Extracted (Some ocr)]\<rparr>"

text \<open>
  A text file that is not valid UTF-8 and reads \<open>caf\<close> followed by code point 233 in
  Latin-1, and a file of zero bytes.
\<close>

definition latin1_txt :: disk_file where
  "latin1_txt = \<lparr>path_exists = True, path_is_file = True, path_suffix = py ''.txt'',
     content = \<lparr>as_pdf = empty_pdf, as_docx = DocxOpenRaises [],
       as_txt = \<lparr>read_text = (\<lambda>enc. case enc of UTF8 \<Rightarrow> UnicodeDecodeError
                                  | UTF8_SIG \<Rightarrow> UnicodeDecodeError
                                  | LATIN1 \<Rightarrow> Decoded [99, 97, 102, 233]
                                  | CP1252 \<Rightarrow> Decoded [99, 97, 102, 233]),
                 read_bytes = Some [99, 97, 102, 233]\<rparr>\<rparr>\<rparr>"

definition zero_byte_txt :: disk_file where
  "zero_byte_txt = \<lparr>path_exists = True, path_is_file = True, path_suffix = py ''.txt'',
     content = txt_content []\<rparr>"

text \<open>The upload of a text file \<open>a.txt\<close> with the given content.\<close>

definition txt_upload :: "pystr \<Rightarrow> upload" where
  "txt_upload t = \<lparr>up_file_name = py ''a.txt'', up_suffix = py ''.txt'', up_content = txt_content t\<rparr>"

text \<open>
  The example services with a splitter that cuts after 31 characters and leaves a blank
  chunk between the two pieces.
\<close>

definition splitting_services :: services where
  "splitting_services =
     example_services\<lparr>split_text := (\<lambda>t. Some [take 31 t, py ''  '', drop 31 t])\<rparr>"

text \<open>
  The vector records of a document \<open>d1\<close> with three chunks, and those of a second ingestion
  under the same id with other texts, embeddings, user and file name.
\<close>

definition three_chunks :: "vector list" where
  "three_chunks = prepare_vectors [py ''a'', py ''b'', py ''c''] [[1], [2], [3]]
                    (py ''u1'') (py ''d1'') (py ''a.txt'')"

definition three_chunks_again :: "vector list" where
  "three_chunks_again = prepare_vectors [py ''x'', py ''y'', py ''z''] [[4], [5], [6]]
                          (py ''u2'') (py ''d1'') (py ''b.txt'')"

section \<open>Facts about strings\<close>

lemma strip_Nil [simp]: "strip [] = []"
  by (simp add: strip_def)

lemma strip_eq_Nil_iff: "strip t = [] \<longleftrightarrow> (\<forall>c\<in>set t. isspace c)"
proof
  assume "strip t = []"
  then have all: "\<forall>x\<in>set (dropWhile isspace t). isspace x"
    by (simp add: strip_def dropWhile_eq_Nil_conv)
  have "dropWhile isspace t = []"
  proof (rule ccontr)
    assume ne: "dropWhile isspace t \<noteq> []"
    then have "\<not> isspace (hd (dropWhile isspace t))" by (rule hd_dropWhile)
    moreover have "hd (dropWhile isspace t) \<in> set (dropWhile isspace t)" using ne by simp
    ultimately show False using all by blast
  qed
  then show "\<forall>c\<in>set t. isspace c" by (simp add: dropWhile_eq_Nil_conv)
next
  assume "\<forall>c\<in>set t. isspace c"
  then have d: "dropWhile isspace t = []" by (simp add: dropWhile_eq_Nil_conv)
  show "strip t = []" unfolding strip_def d by simp
qed

lemma nonblank_iff: "nonblank t \<longleftrightarrow> (\<exists>c\<in>set t. \<not> isspace c)"
  by (auto simp: nonblank_def strip_eq_Nil_iff)

lemma nonblank_strip: "nonblank t \<longleftrightarrow> strip t \<noteq> []"
  by (auto simp: nonblank_def)

lemma dropWhile_hd_id: "xs \<noteq> [] \<Longrightarrow> \<not> P (hd xs) \<Longrightarrow> dropWhile P xs = xs"
  by (cases xs) simp_all

text \<open>Stripping a stripped string changes nothing.\<close>

lemma strip_strip: "strip (strip t) = strip t"
proof (cases "strip t = []")
  case True
  then show ?thesis by simp
next
  case False
  let ?d = "dropWhile isspace t"
  let ?r = "dropWhile isspace (rev ?d)"
  have u: "strip t = rev ?r" by (simp add: strip_def)
  have r: "?r \<noteq> []" using False u by (simp del: dropWhile_eq_Nil_conv)
  then have hr: "\<not> isspace (hd ?r)" by (rule hd_dropWhile)
  have d: "?d \<noteq> []"
  proof
    assume "?d = []"
    then have "?r = []" by (simp only: rev.simps dropWhile.simps)
    with r show False by contradiction
  qed
  then have hd: "\<not> isspace (hd ?d)" by (rule hd_dropWhile)
  have "rev ?d = takeWhile isspace (rev ?d) @ ?r" by simp
  then have "last (rev ?d) = last ?r" using r by (metis last_appendR)
  then have "last ?r = hd ?d" using d by (simp add: last_rev)
  then have "hd (rev ?r) = hd ?d" using r by (simp add: hd_rev)
  then have "dropWhile isspace (rev ?r) = rev ?r"
    using hd r by (intro dropWhile_hd_id) simp_all
  moreover have "dropWhile isspace ?r = ?r"
    using hr r by (intro dropWhile_hd_id)
  ultimately have "strip (rev ?r) = rev ?r"
    unfolding strip_def [of "rev ?r"] by (simp del: dropWhile_eq_Nil_conv)
  then show ?thesis by (simp only: u)
qed

section \<open>The batch embedding operation\<close>

text \<open>
  Claim C7. For every list of texts passed to \<open>embed_texts\<close>: the call fails with
  \<open>ValueError\<close> exactly when the list is empty or every entry is empty or made of
  whitespace only, and then the model is not called; otherwise the model is called once,
  with the entries that have a non-whitespace character, in their original order (the
  list passed on is the input filtered, a subsequence of the input), and the call returns
  what the model returns, or \<open>RuntimeError\<close> if the model raises.
\<close>

theorem embed_texts_drops_blank:
  "(fst (embed_texts sv texts) = Inl ValueError \<longleftrightarrow>
      texts = [] \<or> (\<forall>t\<in>set texts. \<forall>c\<in>set t. isspace c))
   \<and> (fst (embed_texts sv texts) = Inl ValueError \<longrightarrow>
        snd (embed_texts sv texts) = [EmbedTexts texts])
   \<and> (fst (embed_texts sv texts) \<noteq> Inl ValueError \<longrightarrow>
        snd (embed_texts sv texts) =
          [EmbedTexts texts, ModelEmbedDocuments (filter (\<lambda>t. \<exists>c\<in>set t. \<not> isspace c) texts)]
        \<and> fst (embed_texts sv texts) =
            (case aembed_documents sv (filter (\<lambda>t. \<exists>c\<in>set t. \<not> isspace c) texts) of
               None \<Rightarrow> Inl RuntimeError | Some embeddings \<Rightarrow> Inr embeddings))
   \<and> subseq (filter (\<lambda>t. \<exists>c\<in>set t. \<not> isspace c) texts) texts"
proof -
  have eq: "filter nonblank texts = filter (\<lambda>t. \<exists>c\<in>set t. \<not> isspace c) texts"
    by (rule filter_cong) (simp_all add: nonblank_iff)
  have all: "filter nonblank texts = [] \<longleftrightarrow> (\<forall>t\<in>set texts. \<forall>c\<in>set t. isspace c)"
    by (auto simp: filter_empty_conv nonblank_iff)
  show ?thesis
    using all unfolding eq [symmetric]
    by (auto simp: embed_texts_def split: option.splits)
qed

theorem embed_texts_drops_blank_witness:
  "fst (embed_texts example_services [py ''a'', py '' '', [], py ''b c'']) \<noteq> Inl ValueError
   \<and> snd (embed_texts example_services [py ''a'', py '' '', [], py ''b c'']) =
       [EmbedTexts [py ''a'', py '' '', [], py ''b c''], ModelEmbedDocuments [py ''a'', py ''b c'']]
   \<and> fst (embed_texts example_services [py '' '', []]) = Inl ValueError
   \<and> snd (embed_texts example_services [py '' '', []]) = [EmbedTexts [py '' '', []]]"
  using embed_texts_drops_blank [of example_services "[py ''a'', py '' '', [], py ''b c'']"]
    embed_texts_drops_blank [of example_services "[py '' '', []]"]
  by (simp add: example_services_def py_def isspace_def)

section \<open>Vector record identifiers\<close>

text \<open>\<open>str_nat\<close> is the decimal numeral: digits only, of the right value, no leading zero.\<close>

lemma decimal_value_snoc: "decimal_value (s @ [c]) = 10 * decimal_value s + (c - 48)"
  by (simp add: decimal_value_def)

lemma str_nat_digits: "set (str_nat n) \<subseteq> {48..57}"
proof (induction n rule: str_nat.induct)
  case (1 n)
  show ?case
  proof (cases "n < 10")
    case True
    then show ?thesis by (subst str_nat.simps) auto
  next
    case False
    have "n mod 10 < 10" by simp
    then have "48 + n mod 10 \<in> {48..57}" by auto
    with False "1.IH" show ?thesis by (subst str_nat.simps) auto
  qed
qed

lemma str_nat_value: "decimal_value (str_nat n) = n"
proof (induction n rule: str_nat.induct)
  case (1 n)
  show ?case
  proof (cases "n < 10")
    case True
    then show ?thesis by (subst str_nat.simps) (simp add: decimal_value_def)
  next
    case False
    with "1.IH" show ?thesis
      by (subst str_nat.simps) (simp add: decimal_value_snoc)
  qed
qed

lemma str_nat_nonempty: "str_nat n \<noteq> []"
  by (subst str_nat.simps) simp

lemma str_nat_no_leading_zero: "hd (str_nat n) = 48 \<Longrightarrow> n = 0"
proof (induction n rule: str_nat.induct)
  case (1 n)
  show ?case
  proof (cases "n < 10")
    case True
    with "1.prems" show ?thesis by (subst (asm) str_nat.simps) simp
  next
    case False
    with "1.prems" have "hd (str_nat (n div 10)) = 48"
      by (subst (asm) str_nat.simps) (simp add: str_nat_nonempty)
    with False "1.IH" have "n div 10 = 0" by simp
    with False show ?thesis by simp
  qed
qed

lemma str_nat_inj: "str_nat m = str_nat n \<Longrightarrow> m = n"
  by (metis str_nat_value)

lemma prepare_vectors_vec_ids:
  "map vec_id (prepare_vectors chunks embeddings user_id document_id file_name) =
     map (\<lambda>idx. document_id @ py ''_chunk_'' @ str_nat idx)
         [0..<min (length chunks) (length embeddings)]"
  by (auto simp: prepare_vectors_def enumerate_eq_zip intro!: nth_equalityI)

lemma prepare_vectors_distinct:
  "distinct (map vec_id (prepare_vectors chunks embeddings user_id document_id file_name))"
  unfolding prepare_vectors_vec_ids
  by (simp add: distinct_map inj_on_def) (metis str_nat_value)

lemma store_upsert_Nil [simp]: "store_upsert store [] = store"
  by (simp add: store_upsert_def)

lemma store_upsert_append:
  "store_upsert store (xs @ ys) = store_upsert (store_upsert store xs) ys"
  by (simp add: store_upsert_def)

lemma store_upsert_map_add:
  "store_upsert store vs = store ++ map_of (rev (map (\<lambda>v. (vec_id v, v)) vs))"
proof (induction vs arbitrary: store)
  case Nil
  then show ?case by simp
next
  case (Cons v vs)
  have "store_upsert store (v # vs) = store_upsert (store(vec_id v \<mapsto> v)) vs"
    by (simp add: store_upsert_def)
  also have "\<dots> = store(vec_id v \<mapsto> v) ++ map_of (rev (map (\<lambda>v. (vec_id v, v)) vs))"
    by (rule Cons.IH)
  also have "\<dots> = store ++ map_of (rev (map (\<lambda>v. (vec_id v, v)) (v # vs)))"
    by (auto simp: fun_eq_iff map_add_def split: option.splits)
  finally show ?case .
qed

lemma store_upsert_dom:
  "dom (store_upsert store vs) = dom store \<union> set (map vec_id vs)"
  by (auto simp: store_upsert_map_add dom_map_of_conv_image_fst image_iff)

lemma store_upsert_overwrite:
  assumes "map vec_id vs = map vec_id vs'"
  shows "store_upsert (store_upsert store vs) vs' = store_upsert store vs'"
proof -
  let ?m = "map_of (rev (map (\<lambda>v. (vec_id v, v)) vs))"
  let ?m' = "map_of (rev (map (\<lambda>v. (vec_id v, v)) vs'))"
  have "dom ?m = set (map vec_id vs)"
    by (auto simp: dom_map_of_conv_image_fst image_iff)
  moreover have "dom ?m' = set (map vec_id vs')"
    by (auto simp: dom_map_of_conv_image_fst image_iff)
  ultimately have "dom ?m \<subseteq> dom ?m'" using assms by simp
  then have "?m ++ ?m' = ?m'"
    by (auto simp: fun_eq_iff map_add_def split: option.splits)
  then have "(store ++ ?m) ++ ?m' = store ++ ?m'"
    by (metis map_add_assoc)
  then show ?thesis
    by (simp only: store_upsert_map_add)
qed

lemma upsert_from_store:
  "upsert_from sv vectors i n = (Some m, evs) \<Longrightarrow>
     m = n + (length vectors - i) \<and> store_after store evs = store_upsert store (drop i vectors)"
proof (induction sv vectors i n arbitrary: m evs store rule: upsert_from.induct)
  case (1 sv vectors i n)
  show ?case
  proof (cases "i < length vectors")
    case False
    with "1.prems" show ?thesis by (subst (asm) upsert_from.simps) auto
  next
    case True
    let ?batch = "take 100 (drop i vectors)"
    from "1.prems" True have ok: "index_upsert sv ?batch"
      by (subst (asm) upsert_from.simps) (auto split: if_splits)
    obtain r evs' where rec: "upsert_from sv vectors (i + 100) (n + length ?batch) = (r, evs')"
      by (cases "upsert_from sv vectors (i + 100) (n + length ?batch)")
    from "1.prems" True ok rec have r: "r = Some m" and evs: "evs = IndexUpsert ?batch # evs'"
      by (subst (asm) upsert_from.simps, simp)+
    from "1.IH" [OF True ok, of m evs' "store_upsert store ?batch"] rec r
    have m: "m = n + length ?batch + (length vectors - (i + 100))"
      and st: "store_after (store_upsert store ?batch) evs' =
                 store_upsert (store_upsert store ?batch) (drop (i + 100) vectors)"
      by simp_all
    have "drop i vectors = ?batch @ drop (i + 100) vectors"
      by (simp add: add.commute [of i 100] drop_drop [symmetric] del: drop_drop)
    then have "store_upsert store (drop i vectors) =
        store_upsert (store_upsert store ?batch) (drop (i + 100) vectors)"
      by (metis store_upsert_append)
    with st evs have "store_after store evs = store_upsert store (drop i vectors)" by simp
    moreover have "m = n + (length vectors - i)" using m True by auto
    ultimately show ?thesis by simp
  qed
qed

lemma upsert_vectors_store:
  assumes "fst (upsert_vectors sv vectors) = Inr m"
  shows "m = length vectors \<and>
         store_after store (snd (upsert_vectors sv vectors)) = store_upsert store vectors"
proof (cases "vectors = []")
  case True
  with assms show ?thesis by (simp add: upsert_vectors_def)
next
  case False
  obtain r evs where u: "upsert_from sv vectors 0 0 = (r, evs)"
    by (cases "upsert_from sv vectors 0 0")
  with assms False have r: "r = Some m"
    by (cases r) (simp_all add: upsert_vectors_def)
  from upsert_from_store [of sv vectors 0 0 m evs store] u r
  have "m = length vectors" "store_after store evs = store_upsert store vectors" by simp_all
  with False u r show ?thesis by (simp add: upsert_vectors_def)
qed

text \<open>
  Claim C10. For every document id and chunk index, the identifier of the vector record
  built by \<open>_prepare_vectors\<close> is the string \<open>"{document_id}_chunk_{chunk_index}"\<close>, the
  index written as its decimal numeral, and the record carries this index and the document
  id in its metadata. The identifiers of a run are pairwise distinct and depend on the
  document id and the number of records only. At the storage layer: a call of
  \<open>upsert_vectors\<close> that succeeds has sent all records, batch by batch, and leaves the
  index with exactly these records under these ids; ingesting again under the same document
  id with as many chunks replaces these records and adds none, and with the same records
  it leaves the index as it was. (\<open>process_document\<close> draws a new document id for every
  upload, so this concerns a repeated upsert under one id, not two uploads of one file.)
\<close>

theorem prepare_vectors_ids:
  "map vec_id (prepare_vectors chunks embeddings user_id document_id file_name) =
     map (\<lambda>idx. document_id @ py ''_chunk_'' @ str_nat idx)
         [0..<min (length chunks) (length embeddings)]
   \<and> map (\<lambda>v. md_chunk_index (vec_metadata v))
        (prepare_vectors chunks embeddings user_id document_id file_name) =
     map Some [0..<min (length chunks) (length embeddings)]
   \<and> map (\<lambda>v. md_document_id (vec_metadata v))
        (prepare_vectors chunks embeddings user_id document_id file_name) =
     replicate (min (length chunks) (length embeddings)) (Some document_id)
   \<and> str_nat idx \<noteq> [] \<and> set (str_nat idx) \<subseteq> {48..57} \<and> decimal_value (str_nat idx) = idx
   \<and> (hd (str_nat idx) = 48 \<longrightarrow> idx = 0)
   \<and> distinct (map vec_id (prepare_vectors chunks embeddings user_id document_id file_name))
   \<and> (fst (upsert_vectors sv (prepare_vectors chunks embeddings user_id document_id file_name)) =
         Inr n \<longrightarrow>
        n = min (length chunks) (length embeddings)
      \<and> store_after store
           (snd (upsert_vectors sv
                   (prepare_vectors chunks embeddings user_id document_id file_name))) =
          store_upsert store (prepare_vectors chunks embeddings user_id document_id file_name))
   \<and> dom (store_upsert store (prepare_vectors chunks embeddings user_id document_id file_name)) =
       dom store \<union>
       (\<lambda>idx. document_id @ py ''_chunk_'' @ str_nat idx) `
         {0..<min (length chunks) (length embeddings)}
   \<and> (min (length chunks') (length embeddings') = min (length chunks) (length embeddings) \<longrightarrow>
        store_upsert
          (store_upsert store (prepare_vectors chunks embeddings user_id document_id file_name))
          (prepare_vectors chunks' embeddings' user_id' document_id file_name') =
        store_upsert store
          (prepare_vectors chunks' embeddings' user_id' document_id file_name'))
   \<and> store_upsert
         (store_upsert store (prepare_vectors chunks embeddings user_id document_id file_name))
         (prepare_vectors chunks embeddings user_id document_id file_name) =
       store_upsert store (prepare_vectors chunks embeddings user_id document_id file_name)"
proof -
  let ?vs = "prepare_vectors chunks embeddings user_id document_id file_name"
  let ?vs' = "prepare_vectors chunks' embeddings' user_id' document_id file_name'"
  have len: "length ?vs = min (length chunks) (length embeddings)"
    by (simp add: prepare_vectors_def)
  have meta: "map (\<lambda>v. md_chunk_index (vec_metadata v)) ?vs =
      map Some [0..<min (length chunks) (length embeddings)]"
    "map (\<lambda>v. md_document_id (vec_metadata v)) ?vs =
      replicate (min (length chunks) (length embeddings)) (Some document_id)"
    by (auto simp: prepare_vectors_def enumerate_eq_zip intro!: nth_equalityI)
  have up: "n = min (length chunks) (length embeddings) \<and>
      store_after store (snd (upsert_vectors sv ?vs)) = store_upsert store ?vs"
    if "fst (upsert_vectors sv ?vs) = Inr n"
    using upsert_vectors_store [OF that, of store] len by simp
  have dom: "dom (store_upsert store ?vs) =
      dom store \<union> (\<lambda>idx. document_id @ py ''_chunk_'' @ str_nat idx) `
        {0..<min (length chunks) (length embeddings)}"
    by (simp add: store_upsert_dom prepare_vectors_vec_ids)
  have again: "store_upsert (store_upsert store ?vs) ?vs' = store_upsert store ?vs'"
    if "min (length chunks') (length embeddings') = min (length chunks) (length embeddings)"
    by (rule store_upsert_overwrite) (simp add: prepare_vectors_vec_ids that)
  have same: "store_upsert (store_upsert store ?vs) ?vs = store_upsert store ?vs"
    by (rule store_upsert_overwrite) simp
  show ?thesis
    using prepare_vectors_vec_ids [of chunks embeddings user_id document_id file_name]
      meta str_nat_nonempty [of idx] str_nat_digits [of idx] str_nat_value [of idx]
      str_nat_no_leading_zero [of idx]
      prepare_vectors_distinct [of chunks embeddings user_id document_id file_name]
      up dom again same
    by blast
qed

lemma three_chunks_ids:
  "map vec_id three_chunks = [py ''d1_chunk_0'', py ''d1_chunk_1'', py ''d1_chunk_2'']"
  "map vec_id three_chunks_again = [py ''d1_chunk_0'', py ''d1_chunk_1'', py ''d1_chunk_2'']"
  by (simp_all add: three_chunks_def three_chunks_again_def prepare_vectors_def
      enumerate_eq_zip upt_rec str_nat.simps py_def)

lemma upsert_three_chunks:
  "upsert_vectors example_services three_chunks =
     (Inr 3, [UpsertVectors three_chunks, IndexUpsert three_chunks])"
proof -
  have l: "length three_chunks = 3" "three_chunks \<noteq> []"
    by (simp_all add: three_chunks_def prepare_vectors_def enumerate_eq_zip)
  then show ?thesis
    by (simp add: upsert_vectors_def upsert_from.simps [of _ _ 0] upsert_from.simps [of _ _ 100]
        example_services_def)
qed

theorem prepare_vectors_ids_witness:
  "map vec_id three_chunks = [py ''d1_chunk_0'', py ''d1_chunk_1'', py ''d1_chunk_2'']
   \<and> str_nat 10 = py ''10'' \<and> decimal_value (py ''10'') = 10
   \<and> py ''d1'' @ py ''_chunk_'' @ str_nat 10 = py ''d1_chunk_10''
   \<and> hd (str_nat 0) = 48
   \<and> fst (upsert_vectors example_services three_chunks) = Inr 3
   \<and> store_after Map.empty (snd (upsert_vectors example_services three_chunks)) =
       store_upsert Map.empty three_chunks
   \<and> dom (store_upsert Map.empty three_chunks) =
       {py ''d1_chunk_0'', py ''d1_chunk_1'', py ''d1_chunk_2''}
   \<and> min (length [py ''x'', py ''y'', py ''z'']) (length [[4], [5], [6 :: real]]) =
       min (length [py ''a'', py ''b'', py ''c'']) (length [[1], [2], [3 :: real]])
   \<and> store_upsert (store_upsert Map.empty three_chunks) three_chunks_again =
       store_upsert Map.empty three_chunks_again
   \<and> dom (store_upsert (store_upsert Map.empty three_chunks) three_chunks_again) =
       {py ''d1_chunk_0'', py ''d1_chunk_1'', py ''d1_chunk_2''}"
proof -
  note inst = prepare_vectors_ids
    [of "[py ''a'', py ''b'', py ''c'']" "[[1], [2], [3]]" "py ''u1''" "py ''d1''" "py ''a.txt''"
       _ example_services 3 Map.empty
       "[py ''x'', py ''y'', py ''z'']" "[[4], [5], [6]]" "py ''u2''" "py ''b.txt''",
     folded three_chunks_def three_chunks_again_def]
  have ten: "str_nat 10 = py ''10''" "py ''d1'' @ py ''_chunk_'' @ str_nat 10 = py ''d1_chunk_10''"
    "hd (str_nat 0) = 48"
    by (simp_all add: str_nat.simps py_def)
  have val: "decimal_value (py ''10'') = 10"
    using inst [of 10] ten(1) by simp
  have up: "fst (upsert_vectors example_services three_chunks) = Inr 3"
    by (simp add: upsert_three_chunks)
  have st: "store_after Map.empty (snd (upsert_vectors example_services three_chunks)) =
      store_upsert Map.empty three_chunks"
    using inst [of 0] up by simp
  have again: "store_upsert (store_upsert Map.empty three_chunks) three_chunks_again =
      store_upsert Map.empty three_chunks_again"
    using inst [of 0] by simp
  have d: "dom (store_upsert Map.empty three_chunks) =
      {py ''d1_chunk_0'', py ''d1_chunk_1'', py ''d1_chunk_2''}"
    "dom (store_upsert Map.empty three_chunks_again) =
      {py ''d1_chunk_0'', py ''d1_chunk_1'', py ''d1_chunk_2''}"
    by (simp_all add: store_upsert_dom three_chunks_ids)
  show ?thesis
    using three_chunks_ids(1) ten val up st again d by simp
qed

lemma vector_id_example: "py ''d1'' @ py ''_chunk_'' @ str_nat 12 = py ''d1_chunk_12''"
  by (simp add: py_def str_nat.simps)

section \<open>The no-match policy of the retrieval-answer pipeline\<close>

text \<open>
  Claim C4. For every non-blank question whose embedding succeeds: if the query of the
  vector store, filtered by user id and document id, returns zero matches, then
  \<open>ask_question\<close> returns the answer \<open>"Answer not found in the uploaded document."\<close> with
  an empty list of sources and \<open>num_sources\<close> 0, and the generation chain is not invoked.
\<close>

theorem ask_question_no_match:
  assumes "nonblank question"
    and "fst (embed_text sv question) = Inr query_vector"
    and "fst (query sv query_vector (Some (TOP_K sv))
           (Some [(py ''user_id'', user_id), (py ''document_id'', document_id)])) = Inr []"
  shows "fst (ask_question sv question user_id document_id) =
           Inr \<lparr>ra_answer = py ''Answer not found in the uploaded document.'',
                ra_sources = [], ra_num_sources = 0, ra_question = question\<rparr>
         \<and> (\<forall>context q.
               ChainInvoke context q \<notin> set (snd (ask_question sv question user_id document_id)))"
  using assms
  by (auto simp: ask_question_def embed_text_def query_def Let_def
      split: option.splits if_splits prod.splits sum.splits)

theorem ask_question_no_match_witness:
  "nonblank (py ''why?'')
   \<and> fst (embed_text example_services (py ''why?'')) = Inr [1]
   \<and> fst (query example_services [1] (Some (TOP_K example_services))
           (Some [(py ''user_id'', py ''u1''), (py ''document_id'', py ''d1'')])) = Inr []
   \<and> ask_question example_services (py ''why?'') (py ''u1'') (py ''d1'') =
       (Inr \<lparr>ra_answer = py ''Answer not found in the uploaded document.'',
                ra_sources = [], ra_num_sources = 0, ra_question = py ''why?''\<rparr>,
        [EmbedText (py ''why?''), ModelEmbedQuery (py ''why?''),
         IndexQuery [1] 5 (Some [(py ''user_id'', py ''u1''), (py ''document_id'', py ''d1'')])])"
  using ask_question_no_match [of "py ''why?''" example_services "[1]" "py ''u1''" "py ''d1''"]
  by (simp add: example_services_def py_def isspace_def nonblank_def strip_def
        ask_question_def embed_text_def query_def)

section \<open>Deleting a document\<close>




section \<open>Listing the documents of a user\<close>

lemma collect_seen_Cons:
  "collect_seen (m # ms) seen =
     (case raw_document_id m of
        None \<Rightarrow> collect_seen ms seen
      | Some doc_id \<Rightarrow>
          if doc_id \<noteq> [] \<and> doc_id \<notin> fst ` set seen
          then collect_seen ms
                 (seen @ [(doc_id, \<lparr>de_document_id = doc_id, de_file_name = raw_file_name m\<rparr>)])
          else collect_seen ms seen)"
  by (cases "rm_metadata m")
    (simp_all add: Let_def raw_document_id_def raw_file_name_def empty_metadata_def
       split: option.splits)

declare collect_seen.simps(2) [simp del]

lemma collect_seen_distinct:
  "distinct (map fst seen) \<Longrightarrow> distinct (map fst (collect_seen ms seen))"
proof (induction ms arbitrary: seen)
  case Nil
  then show ?case by simp
next
  case (Cons m ms)
  show ?case
    unfolding collect_seen_Cons
    using Cons.prems by (auto split: option.splits intro!: Cons.IH)
qed

lemma collect_seen_keys:
  "fst ` set (collect_seen ms seen) =
     fst ` set seen \<union> {d. d \<noteq> [] \<and> (\<exists>m\<in>set ms. raw_document_id m = Some d)}"
proof (induction ms arbitrary: seen)
  case Nil
  then show ?case by simp
next
  case (Cons m ms)
  show ?case
    unfolding collect_seen_Cons
    by (auto simp: Cons.IH split: option.splits)
qed

text \<open>
  An entry of \<open>seen\<close> after the loop was there before, or its key is new and it was made
  from the first match of the remaining ones that carries this key.
\<close>

lemma collect_seen_first:
  assumes "(d, e) \<in> set (collect_seen ms seen)"
  shows "(d, e) \<in> set seen \<or>
         (d \<notin> fst ` set seen \<and> d \<noteq> [] \<and>
          (\<exists>m. find (\<lambda>m. raw_document_id m = Some d) ms = Some m \<and>
               e = \<lparr>de_document_id = d, de_file_name = raw_file_name m\<rparr>))"
  using assms
proof (induction ms arbitrary: seen)
  case Nil
  then show ?case by simp
next
  case (Cons m ms)
  show ?case
  proof (cases "raw_document_id m")
    case None
    with Cons.prems have "(d, e) \<in> set (collect_seen ms seen)"
      by (simp add: collect_seen_Cons)
    from Cons.IH [OF this] None show ?thesis by auto
  next
    case (Some doc_id)
    show ?thesis
    proof (cases "doc_id \<noteq> [] \<and> doc_id \<notin> fst ` set seen")
      case True
      with Cons.prems Some have
        "(d, e) \<in> set (collect_seen ms
            (seen @ [(doc_id, \<lparr>de_document_id = doc_id, de_file_name = raw_file_name m\<rparr>)]))"
        by (simp add: collect_seen_Cons)
      from Cons.IH [OF this] Some True show ?thesis by auto
    next
      case False
      with Cons.prems Some have "(d, e) \<in> set (collect_seen ms seen)"
        by (simp add: collect_seen_Cons)
      from Cons.IH [OF this] Some False show ?thesis by auto
    qed
  qed
qed

text \<open>
  Claim C9. For every user id and every sequence of matches the index returns, the list
  returned by one call of \<open>list_documents_for_user\<close> has no document id twice, and the
  file name reported for a document id is the one of the first match with that document
  id in the order of the index (\<open>"Unknown"\<close> if that match has no file name). The ids
  returned are exactly the non-empty document ids that occur in the matches.
\<close>

theorem list_documents_distinct_first:
  assumes "index_query sv (replicate 768 0) 10000 (Some [(py ''user_id'', user_id)]) =
             Some results"
    and "raw_matches = (case results of None \<Rightarrow> [] | Some ms \<Rightarrow> ms)"
  shows "\<exists>docs. fst (list_documents_for_user sv user_id) = Inr docs
           \<and> distinct (map de_document_id docs)
           \<and> (\<forall>doc\<in>set docs. \<exists>m.
                 find (\<lambda>m. raw_document_id m = Some (de_document_id doc)) raw_matches = Some m
                 \<and> de_file_name doc = raw_file_name m)
           \<and> set (map de_document_id docs) =
               {d. d \<noteq> [] \<and> (\<exists>m\<in>set raw_matches. raw_document_id m = Some d)}"
proof -
  let ?seen = "collect_seen raw_matches []"
  have res: "fst (list_documents_for_user sv user_id) = Inr (map snd ?seen)"
    using assms by (simp add: list_documents_for_user_def Let_def)
  have entry: "\<exists>m. find (\<lambda>m. raw_document_id m = Some d) raw_matches = Some m
                  \<and> e = \<lparr>de_document_id = d, de_file_name = raw_file_name m\<rparr>"
    if "(d, e) \<in> set ?seen" for d e
    using collect_seen_first [OF that] by simp
  have key: "de_document_id (snd p) = fst p" if "p \<in> set ?seen" for p
    using entry [of "fst p" "snd p"] that by auto
  then have ids: "map de_document_id (map snd ?seen) = map fst ?seen"
    by simp
  have "distinct (map de_document_id (map snd ?seen))"
    unfolding ids by (rule collect_seen_distinct) simp
  moreover have "\<forall>doc\<in>set (map snd ?seen). \<exists>m.
      find (\<lambda>m. raw_document_id m = Some (de_document_id doc)) raw_matches = Some m
      \<and> de_file_name doc = raw_file_name m"
  proof
    fix doc assume "doc \<in> set (map snd ?seen)"
    then obtain d where "(d, doc) \<in> set ?seen" by auto
    from entry [OF this] show "\<exists>m.
      find (\<lambda>m. raw_document_id m = Some (de_document_id doc)) raw_matches = Some m
      \<and> de_file_name doc = raw_file_name m" by auto
  qed
  moreover have "set (map de_document_id (map snd ?seen)) =
      {d. d \<noteq> [] \<and> (\<exists>m\<in>set raw_matches. raw_document_id m = Some d)}"
    unfolding ids using collect_seen_keys [of raw_matches "[]"] by simp
  ultimately show ?thesis using res by blast
qed

theorem list_documents_distinct_first_witness:
  "index_query listing_services (replicate 768 0) 10000 (Some [(py ''user_id'', py ''u1'')]) =
     Some (Some example_matches)
   \<and> fst (list_documents_for_user listing_services (py ''u1'')) =
       Inr [\<lparr>de_document_id = py ''d1'', de_file_name = py ''a.txt''\<rparr>,
            \<lparr>de_document_id = py ''d2'', de_file_name = py ''Unknown''\<rparr>]"
  using list_documents_distinct_first
    [of listing_services "py ''u1''" "Some example_matches" example_matches]
  by (simp add: listing_services_def example_services_def example_matches_def
        list_documents_for_user_def collect_seen.simps(2) empty_metadata_def py_def)

section \<open>The text file path of the extractor\<close>

lemma load_txt_loop_passed_over:
  "\<forall>e\<in>set pre. passed_over (rd e) \<Longrightarrow> load_txt_loop rd (pre @ es) = load_txt_loop rd es"
proof (induction pre)
  case Nil
  then show ?case by simp
next
  case (Cons e pre)
  then show ?case by (cases "rd e") simp_all
qed

lemma load_txt_via_load:
  assumes "path_exists file" "path_is_file file" "path_suffix file = py ''.txt''"
  shows "load file =
     (case load_txt (as_txt (content file)) of
        Inl e \<Rightarrow> if e = OtherException then Inl CorruptedFileError else Inl e
      | Inr text \<Rightarrow> Inr text)"
  using assms
  by (simp add: load_def validate_extension_def SUPPORTED_EXTENSIONS_def py_def)

text \<open>
  Claim C8. For every TXT input, extraction tries UTF-8, UTF-8 with BOM, Latin-1 and
  Windows-1252 in this order and returns the text of the first encoding that decodes
  without error and yields content that is not blank, the encodings before it having
  failed to decode or yielded blank content. A zero-byte input (every encoding reads the
  empty string, there are no bytes) fails with \<open>EmptyDocumentError\<close>. When every encoding
  fails to decode or yields blank content, extraction returns no text: it fails with
  \<open>EmptyDocumentError\<close>, or with \<open>CorruptedFileError\<close> when reading the bytes raises.
\<close>

theorem load_txt_cascade:
  assumes "path_exists file" "path_is_file file" "path_suffix file = py ''.txt''"
  shows "encodings = [UTF8, UTF8_SIG, LATIN1, CP1252]
    \<and> (encodings = pre @ enc # post
        \<and> (\<forall>e\<in>set pre. passed_over (read_text (as_txt (content file)) e))
        \<and> read_text (as_txt (content file)) enc = Decoded text \<and> strip text \<noteq> []
       \<longrightarrow> load_txt (as_txt (content file)) = Inr text \<and> load file = Inr text)
    \<and> ((\<forall>e\<in>set encodings. read_text (as_txt (content file)) e = Decoded [])
        \<and> read_bytes (as_txt (content file)) = Some []
       \<longrightarrow> load file = Inl (EmptyDocumentError TxtIsEmpty))
    \<and> ((\<forall>e\<in>set encodings. passed_over (read_text (as_txt (content file)) e))
       \<longrightarrow> load file =
            (case read_bytes (as_txt (content file)) of
               None \<Rightarrow> Inl CorruptedFileError
             | Some raw \<Rightarrow> if raw = [] then Inl (EmptyDocumentError TxtIsEmpty)
                           else Inl (EmptyDocumentError TxtNoReadableText)))"
proof -
  let ?f = "as_txt (content file)"
  have enc: "encodings = [UTF8, UTF8_SIG, LATIN1, CP1252]"
    by (simp add: encodings_def)
  have first: "load_txt ?f = Inr text"
    if "encodings = pre @ enc # post" "\<forall>e\<in>set pre. passed_over (read_text ?f e)"
      "read_text ?f enc = Decoded text" "strip text \<noteq> []"
  proof -
    have "load_txt_loop (read_text ?f) (pre @ enc # post) = Some (Inr text)"
      using that(2-4) by (simp add: load_txt_loop_passed_over)
    then have "load_txt_loop (read_text ?f) encodings = Some (Inr text)"
      by (simp only: that(1))
    then show ?thesis by (simp add: load_txt_def)
  qed
  have none: "load_txt_loop (read_text ?f) encodings = None"
    if "\<forall>e\<in>set encodings. passed_over (read_text ?f e)"
    using load_txt_loop_passed_over [of encodings "read_text ?f" "[]"] that by simp
  have all: "load_txt ?f =
      (case read_bytes ?f of None \<Rightarrow> Inl OtherException
       | Some raw \<Rightarrow> if raw = [] then Inl (EmptyDocumentError TxtIsEmpty)
                     else Inl (EmptyDocumentError TxtNoReadableText))"
    if "\<forall>e\<in>set encodings. passed_over (read_text ?f e)"
    using none [OF that] by (simp add: load_txt_def split: option.splits)
  have zero: "load_txt ?f = Inl (EmptyDocumentError TxtIsEmpty)"
    if "\<forall>e\<in>set encodings. read_text ?f e = Decoded []" "read_bytes ?f = Some []"
  proof -
    have "\<forall>e\<in>set encodings. passed_over (read_text ?f e)" using that(1) by simp
    from all [OF this] that(2) show ?thesis by simp
  qed
  show ?thesis
    using enc first zero all
    by (auto simp: load_txt_via_load [OF assms] split: option.splits)
qed

theorem load_txt_cascade_witness:
  "path_exists latin1_txt \<and> path_is_file latin1_txt \<and> path_suffix latin1_txt = py ''.txt''
   \<and> encodings = [UTF8, UTF8_SIG] @ LATIN1 # [CP1252]
   \<and> passed_over (read_text (as_txt (content latin1_txt)) UTF8)
   \<and> passed_over (read_text (as_txt (content latin1_txt)) UTF8_SIG)
   \<and> read_text (as_txt (content latin1_txt)) LATIN1 = Decoded [99, 97, 102, 233]
   \<and> strip [99, 97, 102, 233] \<noteq> []
   \<and> load latin1_txt = Inr [99, 97, 102, 233]
   \<and> read_text (as_txt (content zero_byte_txt)) UTF8 = Decoded []
   \<and> read_text (as_txt (content zero_byte_txt)) UTF8_SIG = Decoded []
   \<and> read_text (as_txt (content zero_byte_txt)) LATIN1 = Decoded []
   \<and> read_text (as_txt (content zero_byte_txt)) CP1252 = Decoded []
   \<and> read_bytes (as_txt (content zero_byte_txt)) = Some []
   \<and> load zero_byte_txt = Inl (EmptyDocumentError TxtIsEmpty)"
proof -
  have l: "path_exists latin1_txt" "path_is_file latin1_txt" "path_suffix latin1_txt = py ''.txt''"
    by (simp_all add: latin1_txt_def)
  have z: "path_exists zero_byte_txt" "path_is_file zero_byte_txt"
    "path_suffix zero_byte_txt = py ''.txt''"
    by (simp_all add: zero_byte_txt_def)
  have e: "encodings = [UTF8, UTF8_SIG] @ LATIN1 # [CP1252]"
    by (simp add: encodings_def)
  have p: "passed_over (read_text (as_txt (content latin1_txt)) UTF8)"
    "passed_over (read_text (as_txt (content latin1_txt)) UTF8_SIG)"
    by (simp_all add: latin1_txt_def)
  have d: "read_text (as_txt (content latin1_txt)) LATIN1 = Decoded [99, 97, 102, 233]"
    by (simp add: latin1_txt_def)
  have s: "strip [99, 97, 102, 233] \<noteq> []"
    by (simp add: strip_def isspace_def)
  have zd: "read_text (as_txt (content zero_byte_txt)) enc = Decoded []" for enc
    by (simp add: zero_byte_txt_def txt_content_def)
  have zb: "read_bytes (as_txt (content zero_byte_txt)) = Some []"
    by (simp add: zero_byte_txt_def txt_content_def)
  have "load latin1_txt = Inr [99, 97, 102, 233]"
    using load_txt_cascade [OF l, of "[UTF8, UTF8_SIG]" LATIN1 "[CP1252]" "[99, 97, 102, 233]"]
      e p d s by simp
  moreover have "load zero_byte_txt = Inl (EmptyDocumentError TxtIsEmpty)"
    using load_txt_cascade [OF z] zd zb by simp
  ultimately show ?thesis using l z e p d s zd zb by simp
qed

section \<open>The minimum-content threshold of the extractor\<close>

text \<open>
  Claim C2 says that text returned by \<open>FileLoader.load\<close> is never shorter than 50
  characters after trimming. On the text file of \<open>test_txt_insufficient\<close>, whose content
  is \<open>Short\<close>, \<open>load\<close> returns these 5 characters, where the test expects
  \<open>EmptyDocumentError\<close>.
\<close>

theorem load_txt_returns_short_text:
  "load short_txt = Inr (py ''Short'') \<and> length (strip (py ''Short'')) = 5"
  by (simp add: short_txt_def txt_content_def load_def validate_extension_def
        SUPPORTED_EXTENSIONS_def load_txt_def encodings_def py_def strip_def isspace_def)

text \<open>
  The DOCX path behaves like the TXT path: 10 characters are returned. The PDF path does
  enforce the threshold: whatever \<open>_load_pdf\<close> returns has at least 50 characters after
  stripping.
\<close>

lemma load_docx_returns_short_text:
  "load short_docx = Inr (py ''Short'' @ [10, 10] @ [97, 9, 98])"
  by (simp add: short_docx_def load_def validate_extension_def SUPPORTED_EXTENSIONS_def
      load_docx_def docx_text_parts_def py_def strip_def isspace_def)

lemma load_pdf_text_clears_threshold:
  "fst (load_pdf f) = Inr t \<Longrightarrow> 50 \<le> length (strip t)"
  by (auto simp: load_pdf_def clears_threshold_def MIN_TEXT_LENGTH_def strip_strip
      split: option.splits if_splits)


section \<open>The PDF cascade\<close>

lemma clears_threshold_iff: "clears_threshold text \<longleftrightarrow> 50 \<le> length (strip text)"
  by (auto simp: clears_threshold_def MIN_TEXT_LENGTH_def)

text \<open>
  Claim C3. For every PDF that passes the preflight, extraction runs the stages PyPDF2,
  pdfplumber, OCR in this order; the stripped output of the first stage whose output has
  at least 50 characters after stripping is returned and the later stages are not run; if
  the outputs of all three stages are below the threshold, extraction fails with
  \<open>EmptyDocumentError\<close>.
\<close>

theorem load_pdf_cascade:
  assumes "pdf_preflight_check f = None"
  shows "(50 \<le> length (strip (pdf_stage_pypdf2 f)) \<longrightarrow>
            load_pdf f = (Inr (strip (pdf_stage_pypdf2 f)), [Preflight, StagePyPDF2]))
    \<and> (length (strip (pdf_stage_pypdf2 f)) < 50
        \<and> 50 \<le> length (strip (pdf_stage_pdfplumber f)) \<longrightarrow>
            load_pdf f = (Inr (strip (pdf_stage_pdfplumber f)),
                          [Preflight, StagePyPDF2, StagePdfplumber]))
    \<and> (length (strip (pdf_stage_pypdf2 f)) < 50
        \<and> length (strip (pdf_stage_pdfplumber f)) < 50
        \<and> 50 \<le> length (strip (pdf_stage_ocr f)) \<longrightarrow>
            load_pdf f = (Inr (strip (pdf_stage_ocr f)),
                          [Preflight, StagePyPDF2, StagePdfplumber, StageOCR]))
    \<and> (length (strip (pdf_stage_pypdf2 f)) < 50
        \<and> length (strip (pdf_stage_pdfplumber f)) < 50
        \<and> length (strip (pdf_stage_ocr f)) < 50 \<longrightarrow>
            load_pdf f = (Inl (EmptyDocumentError PdfNoReadableText),
                          [Preflight, StagePyPDF2, StagePdfplumber, StageOCR]))"
  using assms by (simp add: load_pdf_def clears_threshold_iff)

lemma nonblank_Nil: "\<not> nonblank []"
  by (simp add: nonblank_def)

lemma strip_long_text: "strip long_text = long_text"
  by (simp add: long_text_def py_def strip_def isspace_def)

lemma length_long_text: "length long_text = 62"
  by (simp add: long_text_def py_def)

lemma nonblank_long_text: "nonblank long_text"
  by (simp add: nonblank_def strip_long_text) (simp add: long_text_def py_def)

lemma example_pdf_stages:
  "pdf_preflight_check (example_pdf a b c) = None"
  "pdf_stage_pypdf2 (example_pdf a b c) = (if nonblank a then strip a else [])"
  "pdf_stage_pdfplumber (example_pdf a b c) = (if nonblank b then strip b else [])"
  "pdf_stage_ocr (example_pdf a b c) = (if nonblank c then strip c else [])"
  by (simp_all add: example_pdf_def pdf_preflight_check_def pdf_stage_pypdf2_def
      pdf_stage_pdfplumber_def pdf_stage_ocr_def plumber_page_text_def)

theorem load_pdf_cascade_witness:
  "pdf_preflight_check (example_pdf long_text [] []) = None
   \<and> 50 \<le> length (strip (pdf_stage_pypdf2 (example_pdf long_text [] [])))
   \<and> load_pdf (example_pdf long_text [] []) = (Inr long_text, [Preflight, StagePyPDF2])
   \<and> load_pdf (example_pdf [] long_text []) =
       (Inr long_text, [Preflight, StagePyPDF2, StagePdfplumber])
   \<and> load_pdf (example_pdf [] [] long_text) =
       (Inr long_text, [Preflight, StagePyPDF2, StagePdfplumber, StageOCR])
   \<and> load_pdf (example_pdf [] [] []) =
       (Inl (EmptyDocumentError PdfNoReadableText),
        [Preflight, StagePyPDF2, StagePdfplumber, StageOCR])"
  using load_pdf_cascade [of "example_pdf long_text [] []"]
    load_pdf_cascade [of "example_pdf [] long_text []"]
    load_pdf_cascade [of "example_pdf [] [] long_text"]
    load_pdf_cascade [of "example_pdf [] [] []"]
  by (simp add: example_pdf_stages nonblank_long_text strip_long_text length_long_text
        nonblank_Nil)

section \<open>The ingestion pipeline\<close>

lemma strip_has_nonspace:
  assumes "strip t \<noteq> []"
  shows "\<exists>c\<in>set (strip t). \<not> isspace c"
proof -
  let ?r = "dropWhile isspace (rev (dropWhile isspace t))"
  have r: "?r \<noteq> []" using assms unfolding strip_def by simp
  then have "\<not> isspace (hd ?r)" by (rule hd_dropWhile)
  moreover have "hd ?r \<in> set (strip t)" using r unfolding strip_def by simp
  ultimately show ?thesis by blast
qed

lemma nonblank_strip_strip: "strip t \<noteq> [] \<Longrightarrow> nonblank (strip t)"
  using strip_has_nonspace [of t] by (simp add: nonblank_iff)

lemma upsert_from_events:
  "ev \<in> set (snd (upsert_from sv vectors i n)) \<Longrightarrow> \<exists>batch. ev = IndexUpsert batch"
proof (induction sv vectors i n rule: upsert_from.induct)
  case (1 sv vectors i total_upserted)
  show ?case
  proof (cases "i < length vectors \<and> index_upsert sv (take 100 (drop i vectors))")
    case True
    with "1.prems" "1.IH" show ?thesis
      by (subst (asm) upsert_from.simps) (auto split: prod.splits)
  next
    case False
    with "1.prems" show ?thesis
      by (subst (asm) upsert_from.simps) (auto split: if_splits)
  qed
qed

lemma upsert_vectors_events:
  assumes "ev \<in> set (snd (upsert_vectors sv vectors))"
  shows "ev = UpsertVectors vectors \<or> (\<exists>batch. ev = IndexUpsert batch)"
proof -
  obtain r evs where u: "upsert_from sv vectors 0 0 = (r, evs)"
    by (cases "upsert_from sv vectors 0 0")
  have "\<exists>batch. e = IndexUpsert batch" if "e \<in> set evs" for e
    using upsert_from_events [of e sv vectors 0 0] that u by simp
  then show ?thesis
    using assms u by (auto simp: upsert_vectors_def split: if_splits option.splits)
qed

lemma embed_texts_events:
  "snd (embed_texts sv texts) = [EmbedTexts texts] \<or>
   snd (embed_texts sv texts) = [EmbedTexts texts, ModelEmbedDocuments (filter nonblank texts)]"
  by (simp add: embed_texts_def split: option.splits)

lemma embed_texts_Inr:
  "fst (embed_texts sv texts) = Inr embeddings \<Longrightarrow>
     aembed_documents sv (filter nonblank texts) = Some embeddings \<and>
     snd (embed_texts sv texts) = [EmbedTexts texts, ModelEmbedDocuments (filter nonblank texts)]"
  by (simp add: embed_texts_def split: option.splits if_splits)

lemma check_to_store_below_gate:
  "length (strip text) < 50 \<Longrightarrow>
     check_to_store sv text file_name user_id document_id =
       (Inl (if strip text = [] then EMPTY_DOCUMENT else INSUFFICIENT_CONTENT), [])"
  by (simp add: check_to_store_def Let_def)

lemma check_to_store_events_gate:
  assumes "snd (check_to_store sv text file_name user_id document_id) \<noteq> []"
  shows "50 \<le> length (strip text)"
proof (rule ccontr)
  assume "\<not> 50 \<le> length (strip text)"
  then have "length (strip text) < 50" by simp
  from check_to_store_below_gate [OF this] assms show False by simp
qed

lemma check_to_store_upsert:
  assumes "UpsertVectors vectors \<in> set (snd (check_to_store sv text file_name user_id document_id))"
  shows "\<exists>split_chunks embeddings.
           split_text sv (strip text) = Some split_chunks
         \<and> aembed_documents sv (filter nonblank split_chunks) = Some embeddings
         \<and> vectors = prepare_vectors (filter nonblank split_chunks) embeddings user_id
                        document_id file_name
         \<and> ModelEmbedDocuments (filter nonblank split_chunks) \<in>
               set (snd (check_to_store sv text file_name user_id document_id))"
proof -
  have gate: "50 \<le> length (strip text)"
    using assms by (intro check_to_store_events_gate [of sv _ file_name user_id document_id]) auto
  then have ne: "text \<noteq> []" "strip text \<noteq> []" by auto
  from assms obtain split_chunks where sp: "split_text sv (strip text) = Some split_chunks"
    using gate ne
    by (auto simp: check_to_store_def Let_def TextSplitter_split_def split: option.splits if_splits)
  let ?chunks = "filter nonblank split_chunks"
  have nb: "nonblank (strip text)" using ne by (simp add: nonblank_strip_strip)
  have ff: "filter nonblank ?chunks = ?chunks" by simp
  have cts: "check_to_store sv text file_name user_id document_id =
      (if split_chunks = [] \<or> ?chunks = [] then (Inl EMPTY_CHUNKS, [])
       else (case embed_texts sv ?chunks of
               (Inl ValueError, evs) \<Rightarrow> (Inl EMBEDDING_FAILED, evs)
             | (Inl RuntimeError, evs) \<Rightarrow> (Inl EMBEDDING_SERVICE_ERROR, evs)
             | (Inr embeddings, evs) \<Rightarrow>
                 (case upsert_vectors sv
                         (prepare_vectors ?chunks embeddings user_id document_id file_name) of
                    (Inl RuntimeError, evs') \<Rightarrow> (Inl PINECONE_SERVICE_ERROR, evs @ evs')
                  | (Inl ValueError, evs') \<Rightarrow> (Inl UNKNOWN_ERROR, evs @ evs')
                  | (Inr num_upserted, evs') \<Rightarrow>
                      (Inr \<lparr>pr_document_id = document_id, pr_file_name = file_name,
                            pr_num_chunks = length ?chunks,
                            pr_total_characters = length (strip text),
                            pr_status = py ''success''\<rparr>, evs @ evs'))))"
    using gate ne sp nb
    by (simp add: check_to_store_def Let_def TextSplitter_split_def)
  obtain r evs where et: "embed_texts sv ?chunks = (r, evs)"
    by (cases "embed_texts sv ?chunks")
  have evs: "UpsertVectors vectors \<notin> set evs"
    using embed_texts_events [of sv "?chunks"] et by auto
  from assms have nonempty: "\<not> (split_chunks = [] \<or> ?chunks = [])"
    by (auto simp: cts)
  show ?thesis
  proof (cases r)
    case (Inl e)
    with assms et evs nonempty show ?thesis
      by (cases e) (auto simp: cts)
  next
    case (Inr embeddings)
    let ?vs = "prepare_vectors ?chunks embeddings user_id document_id file_name"
    from embed_texts_Inr [of sv "?chunks" embeddings] et Inr
    have emb: "aembed_documents sv ?chunks = Some embeddings"
      and evs_eq: "evs = [EmbedTexts ?chunks, ModelEmbedDocuments ?chunks]"
      by (simp_all add: ff)
    obtain r' evs' where uv: "upsert_vectors sv ?vs = (r', evs')"
      by (cases "upsert_vectors sv ?vs")
    have all: "snd (check_to_store sv text file_name user_id document_id) = evs @ evs'"
      using et Inr uv nonempty
      by (cases r') (auto simp: cts split: service_error.splits)
    with assms evs have "UpsertVectors vectors \<in> set evs'" by simp
    with upsert_vectors_events [of "UpsertVectors vectors" sv "?vs"] uv
    have "vectors = ?vs" by auto
    moreover have "ModelEmbedDocuments ?chunks \<in>
        set (snd (check_to_store sv text file_name user_id document_id))"
      by (simp add: all evs_eq)
    ultimately show ?thesis using sp emb by blast
  qed
qed


lemma process_document_events:
  assumes "ev \<in> set (snd (snd (process_document sv dirs up user_id)))"
  shows "ev = SaveFile (uuid4 sv) \<or> ev = DeleteFile (uuid4 sv) \<or> ev = RmTree (uuid4 sv) \<or>
         (\<exists>t. load (saved_file up) = Inr t \<and>
              ev \<in> set (snd (check_to_store sv t (up_file_name up) user_id (uuid4 sv))))"
proof -
  obtain r evs where ets: "extract_to_store sv up user_id (uuid4 sv) = (r, evs)"
    by (cases "extract_to_store sv up user_id (uuid4 sv)")
  have inner: "\<exists>t. load (saved_file up) = Inr t \<and>
      e \<in> set (snd (check_to_store sv t (up_file_name up) user_id (uuid4 sv)))"
    if "e \<in> set evs" for e
    using that ets by (auto simp: extract_to_store_def split: sum.splits)
  from assms ets have "ev = SaveFile (uuid4 sv) \<or> ev = DeleteFile (uuid4 sv) \<or>
      ev = RmTree (uuid4 sv) \<or> ev \<in> set evs"
    by (auto simp: process_document_def save_file_def delete_file_def Let_def
        split: sum.splits save_outcome.splits if_splits)
  with inner show ?thesis by blast
qed

text \<open>
  Claim C1. After extraction the pipeline checks two gates in order: text that is empty
  after stripping fails with \<open>EMPTY_DOCUMENT\<close>, text that is not empty but shorter than 50
  characters after stripping fails with \<open>INSUFFICIENT_CONTENT\<close>; in both cases no call to
  the embedding service or the vector store is made (the run only saves the upload and
  deletes it again). In every run of \<open>process_document\<close>, a call to the embedding service,
  its model, the vector store or its index happens only when extraction returned a text of
  at least 50 characters after stripping.
\<close>

theorem process_document_text_gate:
  "(strip t = [] \<longrightarrow>
      check_to_store sv t file_name user_id document_id = (Inl EMPTY_DOCUMENT, []))
   \<and> (strip t \<noteq> [] \<and> length (strip t) < 50 \<longrightarrow>
      check_to_store sv t file_name user_id document_id = (Inl INSUFFICIENT_CONTENT, []))
   \<and> (up_suffix up \<in> SUPPORTED_EXTENSIONS \<and> save_outcome sv = Saved
       \<and> load (saved_file up) = Inr t \<and> length (strip t) < 50 \<longrightarrow>
      process_document sv dirs up user_id =
        (Inl (if strip t = [] then EMPTY_DOCUMENT else INSUFFICIENT_CONTENT),
         dirs - {uuid4 sv},
         [SaveFile (uuid4 sv), DeleteFile (uuid4 sv), RmTree (uuid4 sv)]))
   \<and> (\<forall>ev\<in>set (snd (snd (process_document sv dirs up user_id))).
        embedding_or_store_call ev \<longrightarrow>
        (\<exists>t'. load (saved_file up) = Inr t' \<and> 50 \<le> length (strip t')))"
proof -
  have a: "check_to_store sv t file_name user_id document_id = (Inl EMPTY_DOCUMENT, [])"
    if "strip t = []"
    using check_to_store_below_gate [of t sv file_name user_id document_id] that by simp
  have b: "check_to_store sv t file_name user_id document_id = (Inl INSUFFICIENT_CONTENT, [])"
    if "strip t \<noteq> []" "length (strip t) < 50"
    using check_to_store_below_gate [of t sv file_name user_id document_id] that by simp
  have c: "process_document sv dirs up user_id =
        (Inl (if strip t = [] then EMPTY_DOCUMENT else INSUFFICIENT_CONTENT),
         dirs - {uuid4 sv},
         [SaveFile (uuid4 sv), DeleteFile (uuid4 sv), RmTree (uuid4 sv)])"
    if "up_suffix up \<in> SUPPORTED_EXTENSIONS" "save_outcome sv = Saved"
      "load (saved_file up) = Inr t" "length (strip t) < 50"
    using that check_to_store_below_gate [of t sv "up_file_name up" user_id "uuid4 sv"]
    by (simp add: process_document_def validate_extension_def save_file_def
        extract_to_store_def delete_file_def Let_def)
  have d: "\<exists>t'. load (saved_file up) = Inr t' \<and> 50 \<le> length (strip t')"
    if "ev \<in> set (snd (snd (process_document sv dirs up user_id)))"
      "embedding_or_store_call ev" for ev
  proof -
    from process_document_events [OF that(1)] that(2)
    obtain t' where "load (saved_file up) = Inr t'"
      "ev \<in> set (snd (check_to_store sv t' (up_file_name up) user_id (uuid4 sv)))"
      by auto
    moreover from this(2) have "50 \<le> length (strip t')"
      by (intro check_to_store_events_gate [of sv _ "up_file_name up" user_id "uuid4 sv"]) auto
    ultimately show ?thesis by blast
  qed
  show ?thesis using a b c d by blast
qed

lemma load_txt_upload:
  "strip t \<noteq> [] \<Longrightarrow> load (saved_file (txt_upload t)) = Inr t"
  by (simp add: saved_file_def txt_upload_def txt_content_def load_def validate_extension_def
      SUPPORTED_EXTENSIONS_def load_txt_def encodings_def py_def)

lemma txt_upload_supported: "up_suffix (txt_upload t) \<in> SUPPORTED_EXTENSIONS"
  by (simp add: txt_upload_def SUPPORTED_EXTENSIONS_def)

lemma strip_Short: "strip (py ''Short'') = py ''Short''"
  by (simp add: py_def strip_def isspace_def)

lemma process_long_upload:
  "process_document splitting_services {} (txt_upload long_text) (py ''u1'') =
     (Inr \<lparr>pr_document_id = py ''d1'', pr_file_name = py ''a.txt'', pr_num_chunks = 2,
           pr_total_characters = 62, pr_status = py ''success''\<rparr>,
      {py ''d1''},
      [SaveFile (py ''d1''),
       EmbedTexts [take 31 long_text, drop 31 long_text],
       ModelEmbedDocuments [take 31 long_text, drop 31 long_text],
       UpsertVectors (prepare_vectors [take 31 long_text, drop 31 long_text] [[31], [31]]
                        (py ''u1'') (py ''d1'') (py ''a.txt'')),
       IndexUpsert (prepare_vectors [take 31 long_text, drop 31 long_text] [[31], [31]]
                        (py ''u1'') (py ''d1'') (py ''a.txt''))])"
proof -
  have chunks: "nonblank (take 31 long_text)" "\<not> nonblank (py ''  '')"
    "nonblank (drop 31 long_text)"
    by (simp_all add: nonblank_def long_text_def py_def strip_def isspace_def)
  have len: "length (take 31 long_text) = 31" "length (drop 31 long_text) = 31"
    by (simp_all add: length_long_text)
  have ne: "long_text \<noteq> []" "take 31 long_text \<noteq> []"
    using length_long_text len by auto
  have nb: "nonblank long_text"
    using ne by (simp add: nonblank_def strip_long_text)
  let ?vs = "prepare_vectors [take 31 long_text, drop 31 long_text] [[31], [31]]
               (py ''u1'') (py ''d1'') (py ''a.txt'')"
  have vs: "length ?vs = 2" "?vs \<noteq> []"
    by (simp_all add: prepare_vectors_def enumerate_eq_zip)
  have up: "upsert_vectors splitting_services ?vs = (Inr 2, [UpsertVectors ?vs, IndexUpsert ?vs])"
    using vs
    by (simp add: upsert_vectors_def upsert_from.simps [of _ _ 0] upsert_from.simps [of _ _ 100]
        splitting_services_def example_services_def)
  have et: "embed_texts splitting_services [take 31 long_text, drop 31 long_text] =
      (Inr [[31], [31]], [EmbedTexts [take 31 long_text, drop 31 long_text],
         ModelEmbedDocuments [take 31 long_text, drop 31 long_text]])"
    using chunks len
    by (simp add: embed_texts_def splitting_services_def example_services_def)
  have cts: "check_to_store splitting_services long_text (py ''a.txt'') (py ''u1'') (py ''d1'') =
      (Inr \<lparr>pr_document_id = py ''d1'', pr_file_name = py ''a.txt'', pr_num_chunks = 2,
           pr_total_characters = 62, pr_status = py ''success''\<rparr>,
       [EmbedTexts [take 31 long_text, drop 31 long_text],
        ModelEmbedDocuments [take 31 long_text, drop 31 long_text],
        UpsertVectors ?vs, IndexUpsert ?vs])"
  proof -
    have sp: "split_text splitting_services long_text =
        Some [take 31 long_text, py ''  '', drop 31 long_text]"
      by (simp add: splitting_services_def example_services_def)
    show ?thesis
      using chunks ne nb
      by (simp add: check_to_store_def strip_long_text length_long_text TextSplitter_split_def
          sp et up Let_def)
  qed
  have sv: "uuid4 splitting_services = py ''d1''" "save_outcome splitting_services = Saved"
    by (simp_all add: splitting_services_def example_services_def)
  have ld: "load (saved_file (txt_upload long_text)) = Inr long_text"
    using ne by (simp add: load_txt_upload strip_long_text)
  have fn: "up_file_name (txt_upload long_text) = py ''a.txt''"
    by (simp add: txt_upload_def)
  show ?thesis
    using txt_upload_supported [of long_text]
    by (simp add: process_document_def validate_extension_def save_file_def sv
        extract_to_store_def ld fn cts Let_def)
qed


theorem process_document_text_gate_witness:
  "strip (py ''   '') = []
   \<and> check_to_store example_services (py ''   '') (py ''a.txt'') (py ''u1'') (py ''d1'') =
       (Inl EMPTY_DOCUMENT, [])
   \<and> strip (py ''Short'') \<noteq> [] \<and> length (strip (py ''Short'')) < 50
   \<and> up_suffix (txt_upload (py ''Short'')) \<in> SUPPORTED_EXTENSIONS
   \<and> save_outcome example_services = Saved
   \<and> load (saved_file (txt_upload (py ''Short''))) = Inr (py ''Short'')
   \<and> process_document example_services {} (txt_upload (py ''Short'')) (py ''u1'') =
       (Inl INSUFFICIENT_CONTENT, {},
        [SaveFile (py ''d1''), DeleteFile (py ''d1''), RmTree (py ''d1'')])
   \<and> EmbedTexts [take 31 long_text, drop 31 long_text] \<in>
       set (snd (snd (process_document splitting_services {} (txt_upload long_text) (py ''u1''))))
   \<and> embedding_or_store_call (EmbedTexts [take 31 long_text, drop 31 long_text])
   \<and> load (saved_file (txt_upload long_text)) = Inr long_text
   \<and> 50 \<le> length (strip long_text)"
proof -
  have blank: "strip (py ''   '') = []"
    by (simp add: py_def strip_def isspace_def)
  have short: "strip (py ''Short'') \<noteq> []" "length (strip (py ''Short'')) < 50"
    by (simp_all add: strip_Short) (simp_all add: py_def)
  have sv: "save_outcome example_services = Saved" "uuid4 example_services = py ''d1''"
    by (simp_all add: example_services_def)
  have ld: "load (saved_file (txt_upload (py ''Short''))) = Inr (py ''Short'')"
    using short(1) by (rule load_txt_upload)
  have ne: "long_text \<noteq> []"
    using length_long_text by auto
  have long: "load (saved_file (txt_upload long_text)) = Inr long_text"
    by (rule load_txt_upload) (simp add: strip_long_text ne)
  have long50: "50 \<le> length (strip long_text)"
    by (simp add: strip_long_text length_long_text)
  show ?thesis
    using process_document_text_gate [where t = "py ''   ''" and sv = example_services
        and file_name = "py ''a.txt''" and user_id = "py ''u1''" and document_id = "py ''d1''"]
      process_document_text_gate [where t = "py ''Short''" and sv = example_services
        and up = "txt_upload (py ''Short'')" and dirs = "{}" and user_id = "py ''u1''"]
      process_document_text_gate [where sv = splitting_services
        and up = "txt_upload long_text" and dirs = "{}" and user_id = "py ''u1''"]
      blank short sv ld long long50 txt_upload_supported [of "py ''Short''"]
    by (simp add: process_long_upload)
qed

lemma process_document_reaches_check:
  assumes "ev \<in> set (snd (snd (process_document sv dirs up user_id)))"
    and "ev \<noteq> SaveFile (uuid4 sv)" "ev \<noteq> DeleteFile (uuid4 sv)" "ev \<noteq> RmTree (uuid4 sv)"
  shows "\<exists>t. load (saved_file up) = Inr t
           \<and> ev \<in> set (snd (check_to_store sv t (up_file_name up) user_id (uuid4 sv)))
           \<and> set (snd (check_to_store sv t (up_file_name up) user_id (uuid4 sv)))
               \<subseteq> set (snd (snd (process_document sv dirs up user_id)))"
proof -
  obtain r evs where ets: "extract_to_store sv up user_id (uuid4 sv) = (r, evs)"
    by (cases "extract_to_store sv up user_id (uuid4 sv)")
  from assms ets have in_evs: "ev \<in> set evs"
    and sub: "set evs \<subseteq> set (snd (snd (process_document sv dirs up user_id)))"
    by (auto simp: process_document_def save_file_def delete_file_def Let_def
        split: sum.splits save_outcome.splits if_splits)
  from in_evs ets obtain t where "load (saved_file up) = Inr t"
    "evs = snd (check_to_store sv t (up_file_name up) user_id (uuid4 sv))"
    by (auto simp: extract_to_store_def split: sum.splits)
  with in_evs sub show ?thesis by blast
qed

text \<open>
  Claim C6. Let the embedding model return one embedding per text it is given. For every
  ingestion run that reaches the Store step (\<open>upsert_vectors\<close> is called with \<open>vectors\<close>):
  the retained chunks are the non-blank chunks of the splitter, the filter of
  \<open>embed_texts\<close> removes none of them, so the model is called with exactly the retained
  chunks; the number of embeddings equals the number of retained chunks and of vector
  records; the \<open>i\<close>-th record carries the \<open>i\<close>-th embedding, the text of the \<open>i\<close>-th
  chunk and the index \<open>i\<close>; and every stored text is non-empty after stripping.
\<close>

theorem stored_vectors_aligned:
  assumes "UpsertVectors vectors \<in> set (snd (snd (process_document sv dirs up user_id)))"
    and "\<forall>texts embeddings.
           aembed_documents sv texts = Some embeddings \<longrightarrow> length embeddings = length texts"
  shows "\<exists>t split_chunks chunks embeddings.
      load (saved_file up) = Inr t
    \<and> split_text sv (strip t) = Some split_chunks
    \<and> chunks = filter nonblank split_chunks
    \<and> filter nonblank chunks = chunks
    \<and> ModelEmbedDocuments chunks \<in> set (snd (snd (process_document sv dirs up user_id)))
    \<and> aembed_documents sv chunks = Some embeddings
    \<and> length embeddings = length chunks
    \<and> vectors = prepare_vectors chunks embeddings user_id (uuid4 sv) (up_file_name up)
    \<and> length vectors = length chunks
    \<and> (\<forall>i<length chunks.
          vec_values (vectors ! i) = embeddings ! i
        \<and> md_text (vec_metadata (vectors ! i)) = Some (chunks ! i)
        \<and> md_chunk_index (vec_metadata (vectors ! i)) = Some i
        \<and> vec_id (vectors ! i) = uuid4 sv @ py ''_chunk_'' @ str_nat i
        \<and> strip (chunks ! i) \<noteq> [])"
proof -
  from process_document_reaches_check [OF assms(1)]
  obtain t where ld: "load (saved_file up) = Inr t"
    and up: "UpsertVectors vectors \<in>
        set (snd (check_to_store sv t (up_file_name up) user_id (uuid4 sv)))"
    and sub: "set (snd (check_to_store sv t (up_file_name up) user_id (uuid4 sv)))
        \<subseteq> set (snd (snd (process_document sv dirs up user_id)))"
    by auto
  from check_to_store_upsert [OF up]
  obtain split_chunks embeddings where sp: "split_text sv (strip t) = Some split_chunks"
    and emb: "aembed_documents sv (filter nonblank split_chunks) = Some embeddings"
    and vs: "vectors = prepare_vectors (filter nonblank split_chunks) embeddings user_id
               (uuid4 sv) (up_file_name up)"
    and call: "ModelEmbedDocuments (filter nonblank split_chunks) \<in>
        set (snd (check_to_store sv t (up_file_name up) user_id (uuid4 sv)))"
    by blast
  let ?chunks = "filter nonblank split_chunks"
  have len: "length embeddings = length ?chunks"
    using assms(2) emb by blast
  have lv: "length vectors = length ?chunks"
    by (simp add: vs prepare_vectors_def len)
  have rec: "vec_values (vectors ! i) = embeddings ! i
        \<and> md_text (vec_metadata (vectors ! i)) = Some (?chunks ! i)
        \<and> md_chunk_index (vec_metadata (vectors ! i)) = Some i
        \<and> vec_id (vectors ! i) = uuid4 sv @ py ''_chunk_'' @ str_nat i
        \<and> strip (?chunks ! i) \<noteq> []" if "i < length ?chunks" for i
  proof -
    have "?chunks ! i \<in> set ?chunks" using that by (rule nth_mem)
    then have "nonblank (?chunks ! i)" by simp
    then have "strip (?chunks ! i) \<noteq> []" by (simp add: nonblank_def)
    then show ?thesis
      using that len by (simp add: vs prepare_vectors_def nth_enumerate_eq)
  qed
  have "filter nonblank ?chunks = ?chunks" by simp
  with ld sp emb len vs lv rec call sub show ?thesis by blast
qed


theorem stored_vectors_aligned_witness:
  "UpsertVectors (prepare_vectors [take 31 long_text, drop 31 long_text] [[31], [31]]
                    (py ''u1'') (py ''d1'') (py ''a.txt''))
     \<in> set (snd (snd (process_document splitting_services {} (txt_upload long_text) (py ''u1''))))
   \<and> split_text splitting_services (strip long_text) =
       Some [take 31 long_text, py ''  '', drop 31 long_text]
   \<and> (\<forall>texts. aembed_documents splitting_services texts =
                 Some (map (\<lambda>t. [real (length t)]) texts))
   \<and> aembed_documents splitting_services [take 31 long_text, drop 31 long_text] =
       Some [[31], [31]]
   \<and> length (prepare_vectors [take 31 long_text, drop 31 long_text] [[31], [31]]
                    (py ''u1'') (py ''d1'') (py ''a.txt'')) = 2
   \<and> map vec_id (prepare_vectors [take 31 long_text, drop 31 long_text] [[31], [31]]
                    (py ''u1'') (py ''d1'') (py ''a.txt'')) =
       [py ''d1_chunk_0'', py ''d1_chunk_1'']
   \<and> map vec_values (prepare_vectors [take 31 long_text, drop 31 long_text] [[31], [31]]
                    (py ''u1'') (py ''d1'') (py ''a.txt'')) = [[31], [31]]
   \<and> map (\<lambda>v. md_text (vec_metadata v))
         (prepare_vectors [take 31 long_text, drop 31 long_text] [[31], [31]]
                    (py ''u1'') (py ''d1'') (py ''a.txt'')) =
       [Some (take 31 long_text), Some (drop 31 long_text)]"
proof -
  let ?vs = "prepare_vectors [take 31 long_text, drop 31 long_text] [[31], [31]]
               (py ''u1'') (py ''d1'') (py ''a.txt'')"
  have mem: "UpsertVectors ?vs \<in>
      set (snd (snd (process_document splitting_services {} (txt_upload long_text) (py ''u1''))))"
    by (simp add: process_long_upload)
  have contract: "\<forall>texts embeddings. aembed_documents splitting_services texts = Some embeddings
      \<longrightarrow> length embeddings = length texts"
    by (auto simp: splitting_services_def example_services_def)
  have sp: "split_text splitting_services (strip long_text) =
      Some [take 31 long_text, py ''  '', drop 31 long_text]"
    by (simp add: splitting_services_def example_services_def strip_long_text)
  have emb: "aembed_documents splitting_services [take 31 long_text, drop 31 long_text] =
      Some [[31], [31]]"
    by (simp add: splitting_services_def example_services_def length_long_text)
  have vals: "map vec_id ?vs = [py ''d1_chunk_0'', py ''d1_chunk_1'']"
    "map vec_values ?vs = [[31], [31]]"
    "map (\<lambda>v. md_text (vec_metadata v)) ?vs = [Some (take 31 long_text), Some (drop 31 long_text)]"
    by (simp_all add: prepare_vectors_def enumerate_eq_zip upt_rec str_nat.simps py_def)
  have model: "\<forall>texts. aembed_documents splitting_services texts =
      Some (map (\<lambda>t. [real (length t)]) texts)"
    by (simp add: splitting_services_def example_services_def)
  have "long_text \<noteq> []"
    using length_long_text by auto
  then have ld: "load (saved_file (txt_upload long_text)) = Inr long_text"
    by (intro load_txt_upload) (simp add: strip_long_text)
  have nb: "filter nonblank [take 31 long_text, py ''  '', drop 31 long_text] =
      [take 31 long_text, drop 31 long_text]"
    by (simp add: nonblank_def long_text_def py_def strip_def isspace_def)
  from stored_vectors_aligned [OF mem contract]
  obtain t split_chunks where a: "load (saved_file (txt_upload long_text)) = Inr t"
    and b: "split_text splitting_services (strip t) = Some split_chunks"
    and c: "length ?vs = length (filter nonblank split_chunks)"
    by blast
  from a ld have "t = long_text" by simp
  with b sp have "split_chunks = [take 31 long_text, py ''  '', drop 31 long_text]" by simp
  with c have "length ?vs = length [take 31 long_text, drop 31 long_text]"
    by (simp only: nb)
  then have "length ?vs = 2" by simp
  then show ?thesis using mem sp model emb vals by simp
qed

end
